theory Spec2Isabelle
  imports Main "HOL-Library.Char_ord" "HOL-Library.List_Lexorder" "HOL-Library.Sublist"
    "HOL-Library.Multiset"
begin

section \<open>Pieces of the Go standard library the tool relies on\<close>

text \<open>
  A Go \<open>string\<close> is a sequence of bytes, so it is a \<open>string\<close> (a \<open>char list\<close>) here and
  \<open>len\<close> is \<open>length\<close>. The functions below model \<open>strings.Split\<close>, \<open>strings.SplitN\<close>,
  \<open>strconv.Atoi\<close> and \<open>strconv.Itoa\<close> as far as the tool calls them: every separator the
  tool passes is one byte long (\<open>"\n"\<close> and \<open>"-"\<close>), so the separator is a \<open>char\<close>.
\<close>

text \<open>\<open>strings.Split(s, sep)\<close>: all pieces of \<open>s\<close> between the separators; never empty.\<close>

fun Split :: "string \<Rightarrow> char \<Rightarrow> string list" where
  "Split [] sep = [[]]"
| "Split (c # cs) sep =
     (if c = sep then [] # Split cs sep
      else (case Split cs sep of [] \<Rightarrow> [[c]] | x # xs \<Rightarrow> (c # x) # xs))"

text \<open>
  \<open>strings.SplitN(s, sep, n)\<close> for \<open>n \<ge> 0\<close>: at most \<open>n\<close> pieces, the last one the
  unsplit remainder; \<open>n = 0\<close> gives no piece at all.
\<close>

fun SplitN :: "string \<Rightarrow> char \<Rightarrow> nat \<Rightarrow> string list" where
  "SplitN s sep 0 = []"
| "SplitN s sep (Suc 0) = [s]"
| "SplitN s sep (Suc (Suc n)) =
     (if sep \<in> set s
      then takeWhile (\<lambda>c. c \<noteq> sep) s # SplitN (tl (dropWhile (\<lambda>c. c \<noteq> sep) s)) sep (Suc n)
      else [s])"

definition isDigit :: "char \<Rightarrow> bool" where
  "isDigit c = (c \<in> set ''0123456789'')"

definition digitVal :: "char \<Rightarrow> int" where
  "digitVal c = int (of_char c) - 48"

text \<open>The number a run of decimal digits denotes, most significant digit first.\<close>

definition decimal :: "string \<Rightarrow> int" where
  "decimal ds = foldl (\<lambda>n c. 10 * n + digitVal c) 0 ds"

text \<open>The largest value of Go's \<open>int\<close> (64 bits on the platforms the tool is built for).\<close>

definition maxInt :: int where
  "maxInt = 2 ^ 63 - 1"

text \<open>
  \<open>strconv.Atoi\<close>: an optional sign and then at least one digit, nothing else; the value
  must fit Go's \<open>int\<close>. \<open>None\<close> stands for the returned error (syntax or range).
\<close>

definition Atoi :: "string \<Rightarrow> int option" where
  "Atoi s =
     (let neg = (s \<noteq> [] \<and> hd s = CHR ''-'');
          ds = (if s \<noteq> [] \<and> (hd s = CHR ''+'' \<or> hd s = CHR ''-'') then tl s else s)
      in if ds = [] \<or> \<not> list_all isDigit ds then None
         else if neg then (if decimal ds \<le> maxInt + 1 then Some (- decimal ds) else None)
         else (if decimal ds \<le> maxInt then Some (decimal ds) else None))"

text \<open>\<open>strconv.Itoa\<close>, which is also what the verb \<open>%d\<close> and \<open>log.Println\<close> print for an \<open>int\<close>.\<close>

fun natDigits :: "nat \<Rightarrow> string" where
  "natDigits n =
     (if n < 10 then [char_of (48 + n)]
      else natDigits (n div 10) @ [char_of (48 + n mod 10)])"

declare natDigits.simps [simp del]

definition Itoa :: "int \<Rightarrow> string" where
  "Itoa i = (if i < 0 then CHR ''-'' # natDigits (nat (- i)) else natDigits (nat i))"

section \<open>The commit-reference extractor\<close>

text \<open>
  \<open>github.RepositoryCommit\<close> and \<open>github.Commit\<close>: pointer fields are options, and
  \<open>GetMessage\<close> is the nil-safe accessor of the client library.
\<close>

record Commit =
  Message :: "string option"

record RepositoryCommit =
  Commit :: "Commit option"

definition GetMessage :: "Commit option \<Rightarrow> string" where
  "GetMessage c =
     (case c of None \<Rightarrow> []
      | Some c' \<Rightarrow> (case Message c' of None \<Rightarrow> [] | Some m \<Rightarrow> m))"

text \<open>
  \<open>fixesRe.FindAllStringSubmatch(msg, -1)\<close> for the pattern \<open>fixes #(\d+)\<close>: the capture
  group of every match, leftmost first and without overlap. A match starts where the text
  reads \<open>fixes #\<close> followed by a digit, takes the whole run of digits (the quantifier is
  greedy), and the search resumes behind it.
\<close>

function findAllFixes :: "string \<Rightarrow> string list" where
  "findAllFixes [] = []"
| "findAllFixes (c # cs) =
     (if prefix ''fixes #'' (c # cs) \<and> takeWhile isDigit (drop 7 (c # cs)) \<noteq> []
      then takeWhile isDigit (drop 7 (c # cs)) # findAllFixes (dropWhile isDigit (drop 7 (c # cs)))
      else findAllFixes cs)"
  by pat_completeness auto
termination
proof (relation "measure length")
  show "wf (measure length)" by simp
next
  fix c :: char and cs :: string
  have "length (dropWhile isDigit (drop 7 (c # cs))) \<le> length (drop 7 (c # cs))"
    by (rule length_dropWhile_le)
  then show "(dropWhile isDigit (drop 7 (c # cs)), c # cs) \<in> measure length"
    by simp
next
  fix c :: char and cs :: string
  show "(cs, c # cs) \<in> measure length" by simp
qed

declare findAllFixes.simps(2) [simp del]

text \<open>
  \<open>pullReqRe.FindStringSubmatch(msg)\<close> for the pattern \<open>\(#(\d+)\)$\<close>: the capture group
  if the text ends in \<open>(#\<close>, a non-empty run of digits and \<open>)\<close>. Read from the end: the last
  byte is \<open>)\<close>, before it the digits, before them \<open>#\<close> and \<open>(\<close>.
\<close>

definition findPullReq :: "string \<Rightarrow> string option" where
  "findPullReq msg =
     (case rev msg of
        [] \<Rightarrow> None
      | c # r \<Rightarrow>
          if c = CHR '')'' \<and> takeWhile isDigit r \<noteq> [] \<and> prefix ''#('' (dropWhile isDigit r)
          then Some (rev (takeWhile isDigit r))
          else None)"

text \<open>
  The two blocks of \<open>getFixes\<close> that convert a capture, skip it when \<open>Atoi\<close> fails or the
  number was seen, and otherwise append it and record it in \<open>seen\<close>.
\<close>

fun addFix :: "int list \<times> int set \<Rightarrow> string \<Rightarrow> int list \<times> int set" where
  "addFix (fixes, seen) m =
     (case Atoi m of
        None \<Rightarrow> (fixes, seen)
      | Some num \<Rightarrow> if num \<in> seen then (fixes, seen) else (fixes @ [num], insert num seen))"

text \<open>The body of the loop over the commits: the first line, every match, then the trailer.\<close>

definition getFixes_commit :: "int list \<times> int set \<Rightarrow> RepositoryCommit \<Rightarrow> int list \<times> int set" where
  "getFixes_commit st commit =
     (let msg = hd (Split (GetMessage (Commit commit)) CHR 0x0A);
          st' = foldl addFix st (findAllFixes msg)
      in case findPullReq msg of None \<Rightarrow> st' | Some m \<Rightarrow> addFix st' m)"

definition getFixes :: "RepositoryCommit list \<Rightarrow> int list" where
  "getFixes commits = sort (fst (foldl getFixes_commit ([], {}) commits))"

subsection \<open>The reference definition of the extractor\<close>

text \<open>Each element once, in the order of first appearance.\<close>

fun firstSeen :: "'a list \<Rightarrow> 'a list" where
  "firstSeen [] = []"
| "firstSeen (x # xs) = x # filter (\<lambda>y. y \<noteq> x) (firstSeen xs)"

text \<open>The subject of a commit: the first line of its message.\<close>

definition subject :: "RepositoryCommit \<Rightarrow> string" where
  "subject commit = takeWhile (\<lambda>c. c \<noteq> CHR 0x0A) (GetMessage (Commit commit))"

text \<open>The captures of a subject: every \<open>fixes #N\<close>, then the trailing \<open>(#N)\<close>.\<close>

definition subjectRefs :: "string \<Rightarrow> string list" where
  "subjectRefs subj =
     findAllFixes subj @ (case findPullReq subj of None \<Rightarrow> [] | Some m \<Rightarrow> [m])"

text \<open>
  The extractor as the specification words it: every matched number, once, then sorted.
\<close>

definition getFixes_spec :: "RepositoryCommit list \<Rightarrow> int list" where
  "getFixes_spec commits =
     sort (firstSeen (concat (map (\<lambda>c. map decimal (subjectRefs (subject c))) commits)))"

text \<open>
  The same with the conversion the code applies: a capture that \<open>Atoi\<close> rejects, because
  its value does not fit an \<open>int\<close>, contributes nothing.
\<close>

definition getFixes_spec_int :: "RepositoryCommit list \<Rightarrow> int list" where
  "getFixes_spec_int commits =
     sort (firstSeen (concat (map (\<lambda>c. List.map_filter Atoi (subjectRefs (subject c))) commits)))"

section \<open>The data of the hosting service\<close>

text \<open>
  The structures of the client library, with the fields the tool reads or writes. The tool
  reads them through the nil-safe accessors (\<open>GetNumber\<close>, \<open>GetTitle\<close>, \<open>GetState\<close>, ...),
  which return the zero value for an absent field, so a field holds what its accessor
  returns. The two pointers the tool tests against \<open>nil\<close> are options: the milestone of
  an issue, and its pull-request links (\<open>IsPullRequest\<close> is \<open>PullRequestLinks != nil\<close>).
\<close>

datatype error = Error string

fun errorString :: "error \<Rightarrow> string" where
  "errorString (Error msg) = msg"

record Milestone =
  MilestoneNumber :: int
  MilestoneTitle :: string
  MilestoneState :: string
  MilestoneDescription :: string

record Label =
  LabelName :: string

record Issue =
  IssueNumber :: int
  IssueState :: string
  IssueTitle :: string
  IssueHTMLURL :: string
  IssueLabels :: "Label list"
  IssueMilestone :: "Milestone option"
  IssuePullRequestLinks :: "string option"

record RepositoryRelease =
  Name :: string
  TagName :: string
  Body :: string
  Prerelease :: bool
  Draft :: bool

text \<open>\<open>(*Milestone).GetNumber\<close>: \<open>0\<close> on a nil pointer.\<close>

definition GetNumber :: "Milestone option \<Rightarrow> int" where
  "GetNumber stone = (case stone of None \<Rightarrow> 0 | Some m \<Rightarrow> MilestoneNumber m)"

definition IsPullRequest :: "Issue \<Rightarrow> bool" where
  "IsPullRequest issue = (IssuePullRequestLinks issue \<noteq> None)"

section \<open>The remote service\<close>

text \<open>
  The tool talks to one repository of the hosting service through the client. The
  service is modelled by its answers over a stretch of time in which the tool sends no
  request twice and reads nothing back that it has written: the pages of the two
  listings, the answer to each read, and for each mutating request whether the service
  accepts it (and the milestone a creation returns). Such stretches are a run of
  \<open>createMilestone\<close>, of \<open>changelog\<close> and of \<open>createRelease\<close>; where one command runs
  two of them, each has its own answers.
\<close>

record client =
  Issues_ListMilestones :: "(error + Milestone list) list"
  Issues_CreateMilestone :: "string \<Rightarrow> error + Milestone"
  Repositories_CompareCommits :: "string \<Rightarrow> string \<Rightarrow> error + RepositoryCommit list"
  Issues_Get :: "int \<Rightarrow> error + Issue"
  Issues_Edit :: "int \<Rightarrow> int \<Rightarrow> error option"
  Issues_ListByRepo :: "string \<Rightarrow> (error + Issue list) list"
  Repositories_CreateRelease :: "RepositoryRelease \<Rightarrow> error option"
  Issues_EditMilestone :: "int \<Rightarrow> string \<Rightarrow> error option"

text \<open>
  A paginated listing: the request for page \<open>0\<close> is the request for the first page, the
  answer carries the number of the next page, or \<open>0\<close> when there is none. A listing
  without any page answers with an empty page.
\<close>

definition listPage :: "(error + 'a list) list \<Rightarrow> nat \<Rightarrow> error + ('a list \<times> nat)" where
  "listPage pages page =
     (let i = (if page = 0 then 1 else page)
      in if length pages < i then Inr ([], 0)
         else (case pages ! (i - 1) of
                 Inl err \<Rightarrow> Inl err
               | Inr xs \<Rightarrow> Inr (xs, if i < length pages then i + 1 else 0)))"

text \<open>What a run does, in order: the lines it logs and the requests it sends.\<close>

datatype call =
    ListMilestonesCall nat
  | CreateMilestoneCall string
  | CompareCommitsCall string string
  | GetCall int
  | EditCall int int
  | ListByRepoCall string nat
  | CreateReleaseCall RepositoryRelease
  | EditMilestoneCall int string

datatype event = Log string | Call call

fun mutating :: "call \<Rightarrow> bool" where
  "mutating (CreateMilestoneCall _) = True"
| "mutating (EditCall _ _) = True"
| "mutating (CreateReleaseCall _) = True"
| "mutating (EditMilestoneCall _ _) = True"
| "mutating _ = False"

section \<open>Milestone lookup\<close>

text \<open>
  \<open>getMilestone\<close>: page after page of all milestones, the first one with the title wins;
  \<open>page\<close> is \<open>opts.Page\<close>. A failed request ends the search with its error, the last page
  without a hit with the error \<open>not found\<close>.
\<close>

function getMilestone_pages :: "client \<Rightarrow> string \<Rightarrow> nat \<Rightarrow> (error + Milestone) \<times> event list" where
  "getMilestone_pages client name page =
     (case listPage (Issues_ListMilestones client) page of
        Inl err \<Rightarrow> (Inl err, [Call (ListMilestonesCall page)])
      | Inr (stones, nextPage) \<Rightarrow>
          (case find (\<lambda>stone. MilestoneTitle stone = name) stones of
             Some stone \<Rightarrow> (Inr stone, [Call (ListMilestonesCall page)])
           | None \<Rightarrow>
               if nextPage \<le> page then (Inl (Error ''not found''), [Call (ListMilestonesCall page)])
               else (case getMilestone_pages client name nextPage of
                       (r, t) \<Rightarrow> (r, Call (ListMilestonesCall page) # t))))"
  by pat_completeness auto
termination
  apply (relation "measure (\<lambda>(client, name, page). length (Issues_ListMilestones client) - page)")
   apply simp
  apply (auto simp: listPage_def Let_def split: if_splits sum.splits)
  done

declare getMilestone_pages.simps [simp del]

definition getMilestone :: "client \<Rightarrow> string \<Rightarrow> (error + Milestone) \<times> event list" where
  "getMilestone client name = getMilestone_pages client name 0"

section \<open>Milestone synchronization\<close>

definition listCommits :: "client \<Rightarrow> string \<Rightarrow> string \<Rightarrow> (error + RepositoryCommit list) \<times> event list" where
  "listCommits client since to =
     (Repositories_CompareCommits client since to, [Call (CompareCommitsCall since to)])"

text \<open>
  The loop of \<open>createMilestone\<close> over the referenced issue numbers. \<open>stone\<close> is the
  milestone pointer, nil in a dry run that found no milestone. Every \<open>continue\<close> of the
  source ends the events of that issue.
\<close>

fun createMilestone_issues :: "client \<Rightarrow> Milestone option \<Rightarrow> bool \<Rightarrow> bool \<Rightarrow> int list \<Rightarrow> event list" where
  "createMilestone_issues client stone force dryRun [] = []"
| "createMilestone_issues client stone force dryRun (fix # fixes) =
     Call (GetCall fix) #
     (case Issues_Get client fix of
        Inl err \<Rightarrow> [Log (''Getting issue: '' @ errorString err)]
      | Inr issue \<Rightarrow>
          if IssueState issue \<noteq> ''closed''
          then [Log (''Issue '' @ Itoa fix @ '' is not closed; not marking'')]
          else if IssueMilestone issue \<noteq> None
                  \<and> GetNumber (IssueMilestone issue) = GetNumber stone
          then [Log (''Issue '' @ Itoa fix @ '' is already correctly marked'')]
          else if IssueMilestone issue \<noteq> None \<and> \<not> force
          then [Log (''Issue '' @ Itoa fix @ '' is already marked with another milestone'')]
          else Log (''Marking issue '' @ Itoa fix) #
               (if \<not> dryRun
                then Call (EditCall (IssueNumber issue) (GetNumber stone)) #
                     (case Issues_Edit client (IssueNumber issue) (GetNumber stone) of
                        Some err \<Rightarrow> [Log (''Setting milestone on issue: '' @ errorString err)]
                      | None \<Rightarrow> [])
                else []))
     @ createMilestone_issues client stone force dryRun fixes"

text \<open>
  \<open>createMilestone\<close>: the returned error (\<open>None\<close> for \<open>nil\<close>) and the events of the run.
\<close>

definition createMilestone ::
  "client \<Rightarrow> string \<Rightarrow> string \<Rightarrow> string \<Rightarrow> bool \<Rightarrow> bool \<Rightarrow> error option \<times> event list" where
  "createMilestone client since to milestone force dryRun =
     (case getMilestone client milestone of (found, t0) \<Rightarrow>
      case (case found of
              Inr stone \<Rightarrow> (Inr (Some stone), [])
            | Inl _ \<Rightarrow>
                if \<not> dryRun
                then (case Issues_CreateMilestone client milestone of
                        Inl err \<Rightarrow> Inl err
                      | Inr stone \<Rightarrow> Inr (Some stone),
                      [Log (''Creating milestone '' @ milestone), Call (CreateMilestoneCall milestone)])
                else (Inr None, [Log (''Creating milestone '' @ milestone)]))
      of (created, t1) \<Rightarrow>
      case created of
        Inl err \<Rightarrow> (Some err, t0 @ t1)
      | Inr stone \<Rightarrow>
          (case listCommits client since to of
             (Inl err, t2) \<Rightarrow> (Some (Error (''listing commits: '' @ errorString err)), t0 @ t1 @ t2)
           | (Inr commits, t2) \<Rightarrow>
               (None, t0 @ t1 @ t2 @ createMilestone_issues client stone force dryRun (getFixes commits))))"

section \<open>White space and word wrapping\<close>

text \<open>
  \<open>strings.Fields\<close> and \<open>strings.TrimSpace\<close> take white space as \<open>unicode.IsSpace\<close> does: the
  six ASCII characters tab, line feed, vertical tab, form feed, carriage return and space,
  and the characters U+0085, U+00A0, U+1680, U+2000 to U+200A, U+2028, U+2029, U+202F,
  U+205F and U+3000. On the bytes of the string these are the encodings listed in
  \<open>space2\<close> and \<open>space3\<close>: each is a valid UTF-8 sequence, and its first byte is never the
  continuation byte of another character, so the decoder of Go meets a white-space
  character exactly where the bytes of one begin. \<open>spaceWidth s\<close> is the number of bytes of
  the white-space character at the head of \<open>s\<close>, or \<open>0\<close> when \<open>s\<close> does not begin with one.
\<close>

definition asciiSpace :: "char \<Rightarrow> bool" where
  "asciiSpace c = (c \<in> set [CHR 0x09, CHR 0x0A, CHR 0x0B, CHR 0x0C, CHR 0x0D, CHR 0x20])"

definition space2 :: "string \<Rightarrow> bool" where
  "space2 s = (take 2 s \<in> set [[CHR 0xC2, CHR 0x85], [CHR 0xC2, CHR 0xA0]])"

definition space3 :: "string \<Rightarrow> bool" where
  "space3 s = (take 3 s \<in> set
     [[CHR 0xE1, CHR 0x9A, CHR 0x80],
      [CHR 0xE2, CHR 0x80, CHR 0x80], [CHR 0xE2, CHR 0x80, CHR 0x81],
      [CHR 0xE2, CHR 0x80, CHR 0x82], [CHR 0xE2, CHR 0x80, CHR 0x83],
      [CHR 0xE2, CHR 0x80, CHR 0x84], [CHR 0xE2, CHR 0x80, CHR 0x85],
      [CHR 0xE2, CHR 0x80, CHR 0x86], [CHR 0xE2, CHR 0x80, CHR 0x87],
      [CHR 0xE2, CHR 0x80, CHR 0x88], [CHR 0xE2, CHR 0x80, CHR 0x89],
      [CHR 0xE2, CHR 0x80, CHR 0x8A], [CHR 0xE2, CHR 0x80, CHR 0xA8],
      [CHR 0xE2, CHR 0x80, CHR 0xA9], [CHR 0xE2, CHR 0x80, CHR 0xAF],
      [CHR 0xE2, CHR 0x81, CHR 0x9F], [CHR 0xE3, CHR 0x80, CHR 0x80]])"

definition spaceWidth :: "string \<Rightarrow> nat" where
  "spaceWidth s =
     (if s \<noteq> [] \<and> asciiSpace (hd s) then 1
      else if space2 s then 2
      else if space3 s then 3
      else 0)"

lemma take_in_set_length:
  assumes "take n s \<in> set xss" and "\<forall>xs \<in> set xss. length xs = n"
  shows "n \<le> length s"
proof -
  from assms have "length (take n s) = n" by blast
  then show ?thesis by simp
qed

lemma space2_length: "space2 s \<Longrightarrow> 2 \<le> length s"
  unfolding space2_def by (erule take_in_set_length) simp

lemma space3_length: "space3 s \<Longrightarrow> 3 \<le> length s"
  unfolding space3_def by (erule take_in_set_length) simp

lemma spaceWidth_le_length: "spaceWidth s \<le> length s"
  using space2_length [of s] space3_length [of s]
  by (cases s) (auto simp: spaceWidth_def)

text \<open>The string behind its leading white space.\<close>

function skipSpace :: "string \<Rightarrow> string" where
  "skipSpace s = (if 0 < spaceWidth s then skipSpace (drop (spaceWidth s) s) else s)"
  by pat_completeness auto
termination
proof (relation "measure length")
  show "wf (measure length)" by simp
next
  fix s :: string
  assume "0 < spaceWidth s"
  moreover have "spaceWidth s \<le> length s" by (rule spaceWidth_le_length)
  ultimately show "(drop (spaceWidth s) s, s) \<in> measure length" by simp
qed

declare skipSpace.simps [simp del]

text \<open>
  The longest prefix in which no white-space character begins, and the string behind it.
\<close>

fun takeWord :: "string \<Rightarrow> string" where
  "takeWord [] = []"
| "takeWord (c # cs) = (if 0 < spaceWidth (c # cs) then [] else c # takeWord cs)"

fun dropWord :: "string \<Rightarrow> string" where
  "dropWord [] = []"
| "dropWord (c # cs) = (if 0 < spaceWidth (c # cs) then c # cs else dropWord cs)"

lemma length_dropWord: "length (dropWord s) \<le> length s"
  by (induction s) auto

text \<open>
  \<open>strings.Fields\<close>: the maximal runs of bytes without white space, in order; none is empty.
\<close>

function Fields :: "string \<Rightarrow> string list" where
  "Fields [] = []"
| "Fields (c # cs) =
     (if 0 < spaceWidth (c # cs) then Fields (drop (spaceWidth (c # cs)) (c # cs))
      else takeWord (c # cs) # Fields (dropWord cs))"
  by pat_completeness auto
termination
proof (relation "measure length")
  show "wf (measure length)" by simp
next
  fix c :: char and cs :: string
  assume "0 < spaceWidth (c # cs)"
  then show "(drop (spaceWidth (c # cs)) (c # cs), c # cs) \<in> measure length" by simp
next
  fix c :: char and cs :: string
  have "length (dropWord cs) \<le> length cs" by (rule length_dropWord)
  then show "(dropWord cs, c # cs) \<in> measure length" by simp
qed

declare Fields.simps(2) [simp del]

text \<open>
  \<open>strings.TrimSpace\<close>: without the leading and the trailing white space. From the left,
  character by character: a rest that is white space throughout is the trailing white
  space.
\<close>

function trimRight :: "string \<Rightarrow> string" where
  "trimRight [] = []"
| "trimRight (c # cs) =
     (if skipSpace (c # cs) = [] then []
      else if 0 < spaceWidth (c # cs)
      then take (spaceWidth (c # cs)) (c # cs) @ trimRight (drop (spaceWidth (c # cs)) (c # cs))
      else c # trimRight cs)"
  by pat_completeness auto
termination
proof (relation "measure length")
  show "wf (measure length)" by simp
next
  fix c :: char and cs :: string
  assume "0 < spaceWidth (c # cs)"
  then show "(drop (spaceWidth (c # cs)) (c # cs), c # cs) \<in> measure length" by simp
next
  fix c :: char and cs :: string
  show "(cs, c # cs) \<in> measure length" by simp
qed

declare trimRight.simps(2) [simp del]

definition TrimSpace :: "string \<Rightarrow> string" where
  "TrimSpace s = trimRight (skipSpace s)"

text \<open>
  The loop of \<open>wrapParagraph\<close> over the words: \<open>b\<close> is the text built so far, \<open>l\<close> the
  column. The separating space is written before the width is tested.
\<close>

fun wrapParagraph_words :: "string \<Rightarrow> int \<Rightarrow> string \<Rightarrow> int \<Rightarrow> string list \<Rightarrow> string" where
  "wrapParagraph_words pref1 w b l [] = b"
| "wrapParagraph_words pref1 w b l (word # words) =
     (let b1 = (if 0 < l then b @ '' '' else b);
          l1 = (if 0 < l then l + 1 else l);
          b2 = (if w < l1 + int (length word) then b1 @ [CHR 0x0A] @ pref1 else b1);
          l2 = (if w < l1 + int (length word) then int (length pref1) else l1)
      in wrapParagraph_words pref1 w (b2 @ word) (l2 + int (length word)) words)"

text \<open>The indent \<open>pref1\<close> of the continuation lines: two spaces behind a hyphen or an asterisk.\<close>

definition wrapParagraph_pref1 :: "string list \<Rightarrow> string" where
  "wrapParagraph_pref1 words = (if hd words = ''-'' \<or> hd words = ''*'' then ''  '' else [])"

definition wrapParagraph :: "string \<Rightarrow> int \<Rightarrow> string" where
  "wrapParagraph s w =
     (let words = Fields s
      in if length words = 0 then []
         else wrapParagraph_words (wrapParagraph_pref1 words) w [] 0 words)"

text \<open>The loop of \<open>wrap\<close> over the lines of the text; \<open>i\<close> is the index of the line.\<close>

fun wrap_lines :: "string \<Rightarrow> nat \<Rightarrow> string list \<Rightarrow> int \<Rightarrow> string" where
  "wrap_lines b i [] w = b"
| "wrap_lines b i (line # lines) w =
     wrap_lines ((if 0 < i then b @ [CHR 0x0A] else b) @ wrapParagraph line w) (i + 1) lines w"

definition wrap :: "string \<Rightarrow> int \<Rightarrow> string" where
  "wrap s w = wrap_lines [] 0 (Split s CHR 0x0A) w"

section \<open>The changelog\<close>

text \<open>\<open>labels\<close>: the names of the labels of an issue, sorted as \<open>sort.Strings\<close> sorts them.\<close>

definition labels :: "Issue \<Rightarrow> string list" where
  "labels issue = sort (map LabelName (IssueLabels issue))"

fun contains :: "string \<Rightarrow> string list \<Rightarrow> bool" where
  "contains s [] = False"
| "contains s (v # ss) = (if v = s then True else contains s ss)"

text \<open>
  All issues of a milestone, page after page; \<open>page\<close> is \<open>opts.Page\<close> and \<open>milestone\<close> the
  filter, the number of the milestone in decimal.
\<close>

function listIssues_pages :: "client \<Rightarrow> string \<Rightarrow> nat \<Rightarrow> (error + Issue list) \<times> event list" where
  "listIssues_pages client milestone page =
     (case listPage (Issues_ListByRepo client milestone) page of
        Inl err \<Rightarrow> (Inl err, [Call (ListByRepoCall milestone page)])
      | Inr (is, nextPage) \<Rightarrow>
          if nextPage \<le> page then (Inr is, [Call (ListByRepoCall milestone page)])
          else (case listIssues_pages client milestone nextPage of
                  (Inl err, t) \<Rightarrow> (Inl err, Call (ListByRepoCall milestone page) # t)
                | (Inr rest, t) \<Rightarrow> (Inr (is @ rest), Call (ListByRepoCall milestone page) # t)))"
  by pat_completeness auto
termination
  apply (relation "measure (\<lambda>(client, milestone, page). length (Issues_ListByRepo client milestone) - page)")
   apply simp
  apply (auto simp: listPage_def Let_def split: if_splits sum.splits)
  done

declare listIssues_pages.simps [simp del]

text \<open>
  The loop of \<open>changelog\<close> that sorts the issues into the three buckets. A pull request
  and an issue with a label of the skip list go to the next issue.
\<close>

fun changelog_buckets ::
  "string list \<Rightarrow> Issue list \<times> Issue list \<times> Issue list \<Rightarrow> Issue list
   \<Rightarrow> Issue list \<times> Issue list \<times> Issue list" where
  "changelog_buckets skipLabels (bugs, enhancements, other) [] = (bugs, enhancements, other)"
| "changelog_buckets skipLabels (bugs, enhancements, other) (issue # issues) =
     (if IsPullRequest issue
      then changelog_buckets skipLabels (bugs, enhancements, other) issues
      else if list_ex (\<lambda>skip. contains skip (labels issue)) skipLabels
      then changelog_buckets skipLabels (bugs, enhancements, other) issues
      else if contains ''bug'' (labels issue)
      then changelog_buckets skipLabels (bugs @ [issue], enhancements, other) issues
      else if contains ''enhancement'' (labels issue)
      then changelog_buckets skipLabels (bugs, enhancements @ [issue], other) issues
      else changelog_buckets skipLabels (bugs, enhancements, other @ [issue]) issues)"

fun printIssues :: "Issue list \<Rightarrow> bool \<Rightarrow> string" where
  "printIssues [] markdownLinks = []"
| "printIssues (issue # issues) markdownLinks =
     (if markdownLinks
      then ''- [#'' @ Itoa (IssueNumber issue) @ ''](''  @ IssueHTMLURL issue @ ''): ''
           @ IssueTitle issue @ [CHR 0x0A]
      else ''- #'' @ Itoa (IssueNumber issue) @ '': '' @ IssueTitle issue @ [CHR 0x0A])
     @ printIssues issues markdownLinks"

text \<open>One titled list of the changelog; nothing for an empty bucket.\<close>

definition changelog_section :: "string \<Rightarrow> Issue list \<Rightarrow> bool \<Rightarrow> string" where
  "changelog_section title issues markdownLinks =
     (if 0 < length issues
      then (if markdownLinks then ''## '' @ title @ [CHR 0x0A, CHR 0x0A]
            else title @ '':'' @ [CHR 0x0A, CHR 0x0A])
           @ printIssues issues markdownLinks @ [CHR 0x0A]
      else [])"

text \<open>
  \<open>sort.Slice\<close> with the comparison of the issue numbers puts the issues in ascending
  order of number and is not stable: which of two issues with the same number comes first
  is left to the sorting algorithm. The sort is therefore a parameter, \<open>sortSlice\<close>, and
  \<open>sortsByNumber\<close> says what \<open>sort.Slice\<close> guarantees of it: the result holds the same
  issues, each as often as before, in ascending order of number.
\<close>

definition sortsByNumber :: "(Issue list \<Rightarrow> Issue list) \<Rightarrow> bool" where
  "sortsByNumber sortSlice =
     (\<forall>issues. mset (sortSlice issues) = mset issues
                \<and> sorted (map IssueNumber (sortSlice issues)))"

text \<open>What \<open>changelog\<close> writes once the milestone and its issues are at hand.\<close>

definition changelog_text ::
  "(Issue list \<Rightarrow> Issue list) \<Rightarrow> string \<Rightarrow> string \<Rightarrow> string \<Rightarrow> bool \<Rightarrow> string list \<Rightarrow> bool
   \<Rightarrow> Milestone \<Rightarrow> Issue list \<Rightarrow> string" where
  "changelog_text sortSlice owner repo release markdownLinks skipLabels withSubject stone issues =
     (case changelog_buckets skipLabels ([], [], []) (sortSlice issues) of
        (bugs, enhancements, other) \<Rightarrow>
          (if withSubject
           then (if markdownLinks
                 then ''# ['' @ release @ ''](https://github.com/'' @ owner @ ''/'' @ repo
                      @ ''/releases/'' @ release @ '')'' @ [CHR 0x0A, CHR 0x0A]
                 else release @ [CHR 0x0A, CHR 0x0A])
           else [])
          @ (if MilestoneDescription stone \<noteq> []
             then wrap (TrimSpace (MilestoneDescription stone)) 72 @ [CHR 0x0A, CHR 0x0A]
             else [])
          @ changelog_section ''Bugfixes'' bugs markdownLinks
          @ changelog_section ''Enhancements'' enhancements markdownLinks
          @ changelog_section ''Other issues'' other markdownLinks)"

text \<open>
  \<open>changelog\<close>: the error, or the text written to \<open>w\<close> (every error is returned before the
  first write), and the events.
\<close>

definition changelog ::
  "(Issue list \<Rightarrow> Issue list) \<Rightarrow> client \<Rightarrow> string \<Rightarrow> string \<Rightarrow> string \<Rightarrow> bool
   \<Rightarrow> string list \<Rightarrow> bool \<Rightarrow> (error + string) \<times> event list" where
  "changelog sortSlice client owner repo release markdownLinks skipLabels withSubject =
     (let milestone = hd (SplitN release CHR ''-'' 2)
      in case getMilestone client milestone of
           (Inl err, t0) \<Rightarrow> (Inl (Error (''getting milestone: '' @ errorString err)), t0)
         | (Inr stone, t0) \<Rightarrow>
             (case listIssues_pages client (Itoa (MilestoneNumber stone)) 0 of
                (Inl err, t1) \<Rightarrow> (Inl (Error (''listing issues: '' @ errorString err)), t0 @ t1)
              | (Inr issues, t1) \<Rightarrow>
                  (Inr (changelog_text sortSlice owner repo release markdownLinks skipLabels
                          withSubject stone issues),
                   t0 @ t1)))"

section \<open>The release\<close>

text \<open>
  \<open>createRelease\<close>; \<open>body\<close> is its parameter \<open>changelog\<close>. The error of a rejected closing
  of the milestone is built by \<open>fmt.Errorf\<close> from a format with a verb and no operand.
\<close>

definition createRelease :: "client \<Rightarrow> string \<Rightarrow> string \<Rightarrow> error option \<times> event list" where
  "createRelease client release body =
     (let splits = SplitN release CHR ''-'' 2;
          milestone = hd splits;
          pre = (release \<noteq> milestone)
      in case getMilestone client milestone of
           (Inl err, t0) \<Rightarrow> (Some (Error (''getting milestone: '' @ errorString err)), t0)
         | (Inr stone, t0) \<Rightarrow>
             (let rel = \<lparr>Name = release, TagName = release, Body = body,
                          Prerelease = pre, Draft = False\<rparr>
              in case Repositories_CreateRelease client rel of
                   Some err \<Rightarrow> (Some err, t0 @ [Call (CreateReleaseCall rel)])
                 | None \<Rightarrow>
                     if \<not> pre
                     then (case Issues_EditMilestone client (MilestoneNumber stone) ''closed'' of
                             Some err \<Rightarrow>
                               (Some (Error ''closing milestone: %!w(MISSING)''),
                                t0 @ [Call (CreateReleaseCall rel),
                                      Call (EditMilestoneCall (MilestoneNumber stone) ''closed'')])
                           | None \<Rightarrow>
                               (None,
                                t0 @ [Call (CreateReleaseCall rel),
                                      Call (EditMilestoneCall (MilestoneNumber stone) ''closed'')]))
                     else (None, t0 @ [Call (CreateReleaseCall rel)])))"

text \<open>
  \<open>releaseOptions.Run\<close>: the changelog into a buffer, then the release with it as body.
  \<open>createRelease\<close> looks the milestone up again, with requests of its own that the service
  answers at a later time: \<open>client\<close> holds the answers of the service while the changelog
  is rendered, \<open>client'\<close> its answers while the release is created.
\<close>

definition releaseOptions_Run ::
  "(Issue list \<Rightarrow> Issue list) \<Rightarrow> client \<Rightarrow> client \<Rightarrow> string \<Rightarrow> string \<Rightarrow> string \<Rightarrow> string list
   \<Rightarrow> error option \<times> event list" where
  "releaseOptions_Run sortSlice client client' owner repo release skipLabels =
     (case changelog sortSlice client owner repo release False skipLabels False of
        (Inl err, t0) \<Rightarrow> (Some err, t0)
      | (Inr buf, t0) \<Rightarrow>
          (case createRelease client' release buf of (r, t1) \<Rightarrow> (r, t0 @ t1)))"

text \<open>\<open>changelogOptions.Run\<close>: the changelog with its heading, to standard output.\<close>

definition changelogOptions_Run ::
  "(Issue list \<Rightarrow> Issue list) \<Rightarrow> client \<Rightarrow> string \<Rightarrow> string \<Rightarrow> string \<Rightarrow> bool \<Rightarrow> string list
   \<Rightarrow> (error + string) \<times> event list" where
  "changelogOptions_Run sortSlice client owner repo release md skipLabels =
     changelog sortSlice client owner repo release md skipLabels True"

subsection \<open>Properties of the extractor\<close>

lemma Split_not_Nil: "Split s sep \<noteq> []"
  by (induction s) (auto split: list.splits)

lemma hd_Split: "hd (Split s sep) = takeWhile (\<lambda>c. c \<noteq> sep) s"
  by (induction s) (auto split: list.splits simp: Split_not_Nil)

lemma map_filter_Cons_None: "f x = None \<Longrightarrow> List.map_filter f (x # xs) = List.map_filter f xs"
  by (simp add: List.map_filter_def)

lemma map_filter_Cons_Some: "f x = Some y \<Longrightarrow> List.map_filter f (x # xs) = y # List.map_filter f xs"
  by (simp add: List.map_filter_def)

lemma map_filter_append: "List.map_filter f (xs @ ys) = List.map_filter f xs @ List.map_filter f ys"
  by (simp add: List.map_filter_def)

lemma map_filter_concat:
  "List.map_filter f (concat xss) = concat (map (List.map_filter f) xss)"
  by (induction xss) (simp_all add: map_filter_append List.map_filter_simps)

lemma set_firstSeen: "set (firstSeen xs) = set xs"
  by (induction xs) auto

lemma distinct_firstSeen: "distinct (firstSeen xs)"
  by (induction xs) (auto simp: set_firstSeen)

lemma foldl_addFix:
  "foldl addFix (fs, set fs) ms =
     (fs @ filter (\<lambda>n. n \<notin> set fs) (firstSeen (List.map_filter Atoi ms)),
      set fs \<union> set (List.map_filter Atoi ms))"
proof (induction ms arbitrary: fs)
  case Nil
  show ?case by (simp add: List.map_filter_simps)
next
  case (Cons m ms)
  show ?case
  proof (cases "Atoi m")
    case None
    then show ?thesis using Cons.IH [of fs]
      by (simp add: map_filter_Cons_None)
  next
    case (Some n)
    show ?thesis
    proof (cases "n \<in> set fs")
      case True
      have "filter (\<lambda>k. k \<notin> set fs) (filter (\<lambda>y. y \<noteq> n) (firstSeen (List.map_filter Atoi ms)))
            = filter (\<lambda>k. k \<notin> set fs) (firstSeen (List.map_filter Atoi ms))"
        using True by (auto simp: filter_filter intro: filter_cong)
      with True Some show ?thesis using Cons.IH [of fs]
        by (auto simp: map_filter_Cons_Some)
    next
      case False
      have eq: "filter (\<lambda>k. k \<notin> set (fs @ [n])) (firstSeen (List.map_filter Atoi ms))
            = filter (\<lambda>k. k \<notin> set fs) (filter (\<lambda>y. y \<noteq> n) (firstSeen (List.map_filter Atoi ms)))"
        by (auto simp: filter_filter intro: filter_cong)
      have "foldl addFix (fs, set fs) (m # ms) = foldl addFix (fs @ [n], set (fs @ [n])) ms"
        using False Some by simp
      also have "\<dots> = ((fs @ [n]) @ filter (\<lambda>k. k \<notin> set (fs @ [n])) (firstSeen (List.map_filter Atoi ms)),
                       set (fs @ [n]) \<union> set (List.map_filter Atoi ms))"
        by (rule Cons.IH)
      finally show ?thesis using False Some eq
        by (auto simp: map_filter_Cons_Some)
    qed
  qed
qed

lemma getFixes_commit_foldl:
  "getFixes_commit st c = foldl addFix st (subjectRefs (subject c))"
  by (simp add: getFixes_commit_def subjectRefs_def subject_def hd_Split Let_def split: option.splits)

lemma foldl_getFixes_commit:
  "foldl getFixes_commit st commits = foldl addFix st (concat (map (\<lambda>c. subjectRefs (subject c)) commits))"
  by (induction commits arbitrary: st) (simp_all add: getFixes_commit_foldl)

lemma getFixes_eq: "getFixes commits = getFixes_spec_int commits"
proof -
  have "foldl addFix ([], set []) (concat (map (\<lambda>c. subjectRefs (subject c)) commits))
        = ([] @ filter (\<lambda>n. n \<notin> set []) (firstSeen (List.map_filter Atoi (concat (map (\<lambda>c. subjectRefs (subject c)) commits)))),
           set [] \<union> set (List.map_filter Atoi (concat (map (\<lambda>c. subjectRefs (subject c)) commits))))"
    by (rule foldl_addFix)
  then show ?thesis
    by (simp add: getFixes_def getFixes_spec_int_def foldl_getFixes_commit map_filter_concat comp_def)
qed

lemma decimal_snoc: "decimal (ds @ [d]) = 10 * decimal ds + digitVal d"
  by (simp add: decimal_def)

lemma findPullReq_trailer:
  assumes "ds \<noteq> []" "list_all isDigit ds"
  shows "findPullReq (pre @ ''(#'' @ ds @ '')'') = Some ds"
proof -
  have d: "\<And>x. x \<in> set (rev ds) \<Longrightarrow> isDigit x"
    using assms by (simp add: list_all_iff)
  have n: "\<not> isDigit CHR ''#''" by (simp add: isDigit_def)
  have "takeWhile isDigit (rev ds @ ''#('' @ rev pre) = rev ds @ takeWhile isDigit (''#('' @ rev pre)"
    by (rule takeWhile_append2) (rule d)
  then have a: "takeWhile isDigit (rev ds @ ''#('' @ rev pre) = rev ds"
    using n by simp
  have "dropWhile isDigit (rev ds @ ''#('' @ rev pre) = dropWhile isDigit (''#('' @ rev pre)"
    by (rule dropWhile_append2) (rule d)
  then have b: "dropWhile isDigit (rev ds @ ''#('' @ rev pre) = ''#('' @ rev pre"
    using n by simp
  show ?thesis using assms a b by (simp add: findPullReq_def)
qed

lemma Atoi_digits:
  assumes "ds \<noteq> []" "list_all isDigit ds" "decimal ds \<le> maxInt"
  shows "Atoi ds = Some (decimal ds)"
proof -
  have "isDigit (hd ds)" using assms by (cases ds) simp_all
  then have "hd ds \<noteq> CHR ''+''" "hd ds \<noteq> CHR ''-''" by (auto simp: isDigit_def)
  then show ?thesis using assms by (simp add: Atoi_def)
qed

lemma trailer_contributes:
  assumes c: "c \<in> set commits" and s: "subject c = pre @ ''(#'' @ ds @ '')''"
      and ds: "ds \<noteq> []" "list_all isDigit ds" "decimal ds \<le> maxInt"
  shows "decimal ds \<in> set (getFixes commits)"
proof -
  have "findPullReq (subject c) = Some ds"
    unfolding s using ds(1,2) by (rule findPullReq_trailer)
  then have "ds \<in> set (subjectRefs (subject c))"
    by (simp add: subjectRefs_def)
  moreover have "Atoi ds = Some (decimal ds)"
    using ds by (rule Atoi_digits)
  ultimately have "decimal ds \<in> set (List.map_filter Atoi (subjectRefs (subject c)))"
    by (force simp: List.map_filter_def)
  with c have "decimal ds \<in> set (concat (map (\<lambda>c. List.map_filter Atoi (subjectRefs (subject c))) commits))"
    by auto
  then show ?thesis
    by (simp add: getFixes_eq getFixes_spec_int_def set_firstSeen)
qed

lemma sorted_getFixes: "sorted (getFixes commits)"
  by (simp add: getFixes_def)

lemma distinct_getFixes: "distinct (getFixes commits)"
  by (simp add: getFixes_eq getFixes_spec_int_def distinct_firstSeen)

text \<open>
  Claim C1, as the code has it. \<open>getFixes\<close> returns exactly what the reference definition
  gives when a capture that does not fit Go's \<open>int\<close> is left out: for each commit in input
  order the first line of the message, every match of \<open>fixes #N\<close> and then the trailing
  \<open>(#N)\<close>, each number once in first-seen order, finally sorted. The result is ascending
  and free of duplicates, and a subject that ends in \<open>(#N)\<close>, with \<open>N\<close> in the range of
  \<open>int\<close>, contributes \<open>N\<close> whether or not the word \<open>fixes\<close> occurs.
\<close>

theorem getFixes_refines_reference:
  "getFixes commits = getFixes_spec_int commits
   \<and> sorted (getFixes commits) \<and> distinct (getFixes commits)
   \<and> (\<forall>c \<in> set commits. \<forall>pre ds.
          subject c = pre @ ''(#'' @ ds @ '')'' \<and> ds \<noteq> [] \<and> list_all isDigit ds
            \<and> decimal ds \<le> maxInt
          \<longrightarrow> decimal ds \<in> set (getFixes commits))"
proof (intro conjI ballI allI impI)
  show "getFixes commits = getFixes_spec_int commits"
    by (rule getFixes_eq)
  show "sorted (getFixes commits)"
    by (rule sorted_getFixes)
  show "distinct (getFixes commits)"
    by (rule distinct_getFixes)
next
  fix c pre ds
  assume c: "c \<in> set commits"
    and h: "subject c = pre @ ''(#'' @ ds @ '')'' \<and> ds \<noteq> [] \<and> list_all isDigit ds
            \<and> decimal ds \<le> maxInt"
  from h have "subject c = pre @ ''(#'' @ ds @ '')''" "ds \<noteq> []" "list_all isDigit ds"
    "decimal ds \<le> maxInt"
    by simp_all
  with c show "decimal ds \<in> set (getFixes commits)"
    by (rule trailer_contributes)
qed

theorem getFixes_refines_reference_witness:
  "123 \<in> set (getFixes [\<lparr>Commit = Some \<lparr>Message = Some ''cmd: update docs (#123)''\<rparr>\<rparr>])"
proof -
  let ?c = "\<lparr>Commit = Some \<lparr>Message = Some ''cmd: update docs (#123)''\<rparr>\<rparr>"
  have s: "subject ?c = ''cmd: update docs '' @ ''(#'' @ ''123'' @ '')''"
    by (simp add: subject_def GetMessage_def)
  have d: "list_all isDigit ''123''" by (simp add: isDigit_def)
  have v: "decimal ''123'' = 123" by (simp add: decimal_def digitVal_def)
  have m: "decimal ''123'' \<le> maxInt" by (simp add: v maxInt_def)
  have n: "''123'' \<noteq> []" by simp
  have c: "?c \<in> set [?c]" by simp
  from getFixes_refines_reference [of "[?c]"]
  have "\<forall>c \<in> set [?c]. \<forall>pre ds.
          subject c = pre @ ''(#'' @ ds @ '')'' \<and> ds \<noteq> [] \<and> list_all isDigit ds
            \<and> decimal ds \<le> maxInt
          \<longrightarrow> decimal ds \<in> set (getFixes [?c])"
    by (elim conjE)
  then have imp: "subject ?c = ''cmd: update docs '' @ ''(#'' @ ''123'' @ '')'' \<and> ''123'' \<noteq> []
      \<and> list_all isDigit ''123'' \<and> decimal ''123'' \<le> maxInt
      \<Longrightarrow> decimal ''123'' \<in> set (getFixes [?c])"
    by (rule ballE [where x = ?c]) (blast, simp)
  have "decimal ''123'' \<in> set (getFixes [?c])"
    by (rule imp) (intro conjI s n d m)
  then show ?thesis by (simp only: v)
qed

lemma overflow_findAllFixes: "findAllFixes ''lib: fixes #99999999999999999999'' = [''99999999999999999999'']"
  by (simp add: findAllFixes.simps(2) isDigit_def)

lemma overflow_findPullReq: "findPullReq ''lib: fixes #99999999999999999999'' = None"
  by (simp add: findPullReq_def)

lemma overflow_decimal: "decimal ''99999999999999999999'' = 99999999999999999999"
  by (simp add: decimal_def digitVal_def)

lemma overflow_Atoi: "Atoi ''99999999999999999999'' = None"
  by (simp add: Atoi_def overflow_decimal maxInt_def isDigit_def)

lemma overflow_subject: "subject \<lparr>Commit = Some \<lparr>Message = Some ''lib: fixes #99999999999999999999''\<rparr>\<rparr> = ''lib: fixes #99999999999999999999''"
  by (simp add: subject_def GetMessage_def)

lemma overflow_subjectRefs: "subjectRefs ''lib: fixes #99999999999999999999'' = [''99999999999999999999'']"
  by (simp add: subjectRefs_def overflow_findAllFixes overflow_findPullReq)

lemma overflow_getFixes_spec: "getFixes_spec [\<lparr>Commit = Some \<lparr>Message = Some ''lib: fixes #99999999999999999999''\<rparr>\<rparr>] = [99999999999999999999]"
  by (simp add: getFixes_spec_def overflow_subject overflow_subjectRefs overflow_decimal)

text \<open>
  Claim C1 as stated does not hold for every list of commits: the reference definition
  adds the number of every match, but \<open>strconv.Atoi\<close> fails on a run of digits beyond the
  range of \<open>int\<close> and \<open>getFixes\<close> then skips the match.
\<close>

theorem getFixes_drops_overflowing_reference:
  "getFixes [\<lparr>Commit = Some \<lparr>Message = Some ''lib: fixes #99999999999999999999''\<rparr>\<rparr>] = []
   \<and> getFixes_spec [\<lparr>Commit = Some \<lparr>Message = Some ''lib: fixes #99999999999999999999''\<rparr>\<rparr>]
       = [99999999999999999999]"
proof
  show "getFixes [\<lparr>Commit = Some \<lparr>Message = Some ''lib: fixes #99999999999999999999''\<rparr>\<rparr>] = []"
    by (simp add: getFixes_def getFixes_commit_def GetMessage_def overflow_findAllFixes overflow_findPullReq overflow_Atoi)
  show "getFixes_spec [\<lparr>Commit = Some \<lparr>Message = Some ''lib: fixes #99999999999999999999''\<rparr>\<rparr>]
       = [99999999999999999999]"
    by (rule overflow_getFixes_spec)
qed

subsection \<open>A small repository to run the tool on\<close>

definition example_commits :: "RepositoryCommit list" where
  "example_commits =
     [\<lparr>Commit = Some \<lparr>Message = Some ''lib: fix crash (fixes #5) (#7)''\<rparr>\<rparr>,
      \<lparr>Commit = Some \<lparr>Message = Some ''gui: typo, fixes #8''\<rparr>\<rparr>]"

definition example_issue :: "int \<Rightarrow> string \<Rightarrow> string \<Rightarrow> string list \<Rightarrow> bool \<Rightarrow> Issue" where
  "example_issue n st title ls pr =
     \<lparr>IssueNumber = n, IssueState = st, IssueTitle = title, IssueHTMLURL = ''https://example.org/'' @ Itoa n,
      IssueLabels = map (\<lambda>l. \<lparr>LabelName = l\<rparr>) ls, IssueMilestone = None,
      IssuePullRequestLinks = (if pr then Some ''https://example.org/pull'' else None)\<rparr>"

definition example_stone :: Milestone where
  "example_stone = \<lparr>MilestoneNumber = 1, MilestoneTitle = ''v1.0.0'', MilestoneState = ''open'',
                     MilestoneDescription = ''''\<rparr>"

text \<open>
  The issues of the milestone, as the service lists them on two pages: three issues, the
  pull request 7 and an issue labelled \<open>wontfix\<close>.
\<close>

definition example_listed :: "int \<Rightarrow> string \<Rightarrow> string list \<Rightarrow> bool \<Rightarrow> Issue" where
  "example_listed n title ls pr =
     (example_issue n ''closed'' title ls pr)\<lparr>IssueMilestone := Some example_stone\<rparr>"

definition example_listing :: "(error + Issue list) list" where
  "example_listing =
     [Inr [example_listed 3 ''Typo'' [] False,
           example_listed 7 ''lib: fix crash'' [''bug''] True],
      Inr [example_listed 1 ''Crash on start'' [''bug''] False,
           example_listed 4 ''Old bug'' [''wontfix'', ''bug''] False,
           example_listed 2 ''Add flag'' [''enhancement''] False]]"

definition example_client :: client where
  "example_client =
     \<lparr>Issues_ListMilestones = [Inr [example_stone]],
      Issues_CreateMilestone = (\<lambda>title. Inr \<lparr>MilestoneNumber = 2, MilestoneTitle = title,
                                  MilestoneState = ''open'', MilestoneDescription = ''''\<rparr>),
      Repositories_CompareCommits = (\<lambda>since to. Inr example_commits),
      Issues_Get = (\<lambda>n. if n = 5 then Inr (example_issue 5 ''closed'' ''Crash on start'' [''bug''] False)
                        else if n = 7 then Inr (example_issue 7 ''closed'' ''lib: fix crash'' [] True)
                        else if n = 8 then Inr (example_issue 8 ''open'' ''Typo'' [] False)
                        else Inl (Error ''404 Not Found'')),
      Issues_Edit = (\<lambda>n m. None),
      Issues_ListByRepo = (\<lambda>m. if m = ''1'' then example_listing else []),
      Repositories_CreateRelease = (\<lambda>rel. None),
      Issues_EditMilestone = (\<lambda>n st. None)\<rparr>"

lemma example_findAllFixes:
  "findAllFixes ''lib: fix crash (fixes #5) (#7)'' = [''5'']"
  "findAllFixes ''gui: typo, fixes #8'' = [''8'']"
  by (simp_all add: findAllFixes.simps(2) isDigit_def)

lemma example_findPullReq:
  "findPullReq ''lib: fix crash (fixes #5) (#7)'' = Some ''7''"
  "findPullReq ''gui: typo, fixes #8'' = None"
  by (simp_all add: findPullReq_def isDigit_def)

lemma example_Atoi: "Atoi ''5'' = Some 5" "Atoi ''7'' = Some 7" "Atoi ''8'' = Some 8"
  by (simp_all add: Atoi_def isDigit_def decimal_def digitVal_def maxInt_def)

lemma example_getFixes: "getFixes example_commits = [5, 7, 8]"
  by (simp add: getFixes_def example_commits_def getFixes_commit_def GetMessage_def
      example_findAllFixes example_findPullReq example_Atoi)

lemma example_Itoa: "Itoa 5 = ''5''" "Itoa 7 = ''7''" "Itoa 8 = ''8''"
  by code_simp+

lemma example_getMilestone:
  "getMilestone example_client ''v1.0.0'' = (Inr example_stone, [Call (ListMilestonesCall 0)])"
  by (simp add: getMilestone_def getMilestone_pages.simps listPage_def example_client_def
      example_stone_def)

lemma example_getMilestone_missing:
  "getMilestone example_client ''v1.1.0'' = (Inl (Error ''not found''), [Call (ListMilestonesCall 0)])"
  by (simp add: getMilestone_def getMilestone_pages.simps listPage_def example_client_def
      example_stone_def)

lemma example_issues_marked:
  "createMilestone_issues example_client (Some example_stone) False False [5, 7, 8] =
     [Call (GetCall 5), Log ''Marking issue 5'', Call (EditCall 5 1),
      Call (GetCall 7), Log ''Marking issue 7'', Call (EditCall 7 1),
      Call (GetCall 8), Log ''Issue 8 is not closed; not marking'']"
  by (simp add: example_client_def example_issue_def example_Itoa GetNumber_def example_stone_def)

subsection \<open>The decision taken for one issue\<close>

text \<open>
  When the loop leaves an issue alone: the fetch fails, the issue is not closed, it carries
  the milestone already, or it carries another one and \<open>force\<close> is off.
\<close>

definition skipped :: "client \<Rightarrow> Milestone option \<Rightarrow> bool \<Rightarrow> int \<Rightarrow> bool" where
  "skipped client stone force fix =
     (case Issues_Get client fix of
        Inl _ \<Rightarrow> True
      | Inr issue \<Rightarrow>
          IssueState issue \<noteq> ''closed''
          \<or> (IssueMilestone issue \<noteq> None \<and> GetNumber (IssueMilestone issue) = GetNumber stone)
          \<or> (IssueMilestone issue \<noteq> None \<and> GetNumber (IssueMilestone issue) \<noteq> GetNumber stone
               \<and> \<not> force))"

lemma createMilestone_issues_append:
  "createMilestone_issues client stone force dryRun (xs @ ys) =
     createMilestone_issues client stone force dryRun xs
     @ createMilestone_issues client stone force dryRun ys"
  by (induction xs) simp_all

lemma createMilestone_issues_Cons:
  "createMilestone_issues client stone force dryRun (fix # fixes) =
     createMilestone_issues client stone force dryRun [fix]
     @ createMilestone_issues client stone force dryRun fixes"
  using createMilestone_issues_append [of client stone force dryRun "[fix]" "fixes"] by simp

lemma skipped_events:
  assumes "skipped client stone force fix"
  shows "\<exists>l. createMilestone_issues client stone force dryRun [fix] = [Call (GetCall fix), Log l]
             \<and> l \<noteq> ''Marking issue '' @ Itoa fix"
  using assms by (auto simp: skipped_def split: sum.splits)

lemma marked_events:
  assumes "\<not> skipped client stone force fix"
  shows "\<exists>issue rest. Issues_Get client fix = Inr issue
           \<and> createMilestone_issues client stone force dryRun [fix] =
               Call (GetCall fix) # Log (''Marking issue '' @ Itoa fix) #
               (if dryRun then [] else Call (EditCall (IssueNumber issue) (GetNumber stone)) # rest)
           \<and> (\<forall>e \<in> set rest. \<exists>l. e = Log l)"
proof -
  from assms obtain issue where g: "Issues_Get client fix = Inr issue"
    by (auto simp: skipped_def split: sum.splits)
  with assms have c: "IssueState issue = ''closed''"
    and m: "IssueMilestone issue = None \<or> (GetNumber (IssueMilestone issue) \<noteq> GetNumber stone \<and> force)"
    by (auto simp: skipped_def)
  define rest where "rest = (case Issues_Edit client (IssueNumber issue) (GetNumber stone) of
                        Some err \<Rightarrow> [Log (''Setting milestone on issue: '' @ errorString err)]
                      | None \<Rightarrow> [])"
  have "createMilestone_issues client stone force dryRun [fix] =
               Call (GetCall fix) # Log (''Marking issue '' @ Itoa fix) #
               (if dryRun then [] else Call (EditCall (IssueNumber issue) (GetNumber stone)) # rest)"
    using g c m by (auto simp: rest_def)
  moreover have "\<forall>e \<in> set rest. \<exists>l. e = Log l"
    by (auto simp: rest_def split: option.splits)
  ultimately show ?thesis using g by blast
qed

text \<open>
  Claim C3, as the code has it. For every referenced issue number the issue is fetched.
  It is skipped, with one logged line and nothing else, if the fetch fails, or the issue
  is not in the closed state, or it already carries this very milestone (a no-op), or it
  carries a different milestone and \<open>force\<close> is false. Otherwise the assignment is logged
  and, unless the run is a dry run, the number of the milestone is assigned to the
  issue. Whether the issue is a pull request plays no part. The loop handles the
  numbers one after the other.
\<close>

theorem createMilestone_issue_decision:
  "(skipped client stone force fix \<longrightarrow>
      (\<exists>l. createMilestone_issues client stone force dryRun [fix] = [Call (GetCall fix), Log l]
           \<and> l \<noteq> ''Marking issue '' @ Itoa fix))
   \<and> (\<not> skipped client stone force fix \<longrightarrow>
      (\<exists>issue rest. Issues_Get client fix = Inr issue
           \<and> createMilestone_issues client stone force dryRun [fix] =
               Call (GetCall fix) # Log (''Marking issue '' @ Itoa fix) #
               (if dryRun then [] else Call (EditCall (IssueNumber issue) (GetNumber stone)) # rest)
           \<and> (\<forall>e \<in> set rest. \<exists>l. e = Log l)))
   \<and> createMilestone_issues client stone force dryRun (fix # fixes) =
       createMilestone_issues client stone force dryRun [fix]
       @ createMilestone_issues client stone force dryRun fixes"
  using skipped_events [of client stone force "fix" dryRun]
    marked_events [of client stone force "fix" dryRun]
    createMilestone_issues_Cons [of client stone force dryRun "fix" "fixes"]
  by (intro conjI impI)

theorem createMilestone_issue_decision_witness:
  "skipped example_client (Some example_stone) False 8
   \<and> (\<exists>l. createMilestone_issues example_client (Some example_stone) False False [8]
             = [Call (GetCall 8), Log l] \<and> l \<noteq> ''Marking issue '' @ Itoa 8)
   \<and> \<not> skipped example_client (Some example_stone) False 7
   \<and> (\<exists>issue rest. Issues_Get example_client 7 = Inr issue
           \<and> createMilestone_issues example_client (Some example_stone) False False [7] =
               Call (GetCall 7) # Log (''Marking issue '' @ Itoa 7) #
               (if False then [] else Call (EditCall (IssueNumber issue) (GetNumber (Some example_stone))) # rest)
           \<and> (\<forall>e \<in> set rest. \<exists>l. e = Log l))"
proof -
  have s8: "skipped example_client (Some example_stone) False 8"
    by (simp add: skipped_def example_client_def example_issue_def)
  have s7: "\<not> skipped example_client (Some example_stone) False 7"
    by (simp add: skipped_def example_client_def example_issue_def)
  from createMilestone_issue_decision [of example_client "Some example_stone" False 8 False "[]"] s8
  have a: "\<exists>l. createMilestone_issues example_client (Some example_stone) False False [8]
             = [Call (GetCall 8), Log l] \<and> l \<noteq> ''Marking issue '' @ Itoa 8"
    by blast
  from createMilestone_issue_decision [of example_client "Some example_stone" False 7 False "[]"] s7
  have b: "\<exists>issue rest. Issues_Get example_client 7 = Inr issue
           \<and> createMilestone_issues example_client (Some example_stone) False False [7] =
               Call (GetCall 7) # Log (''Marking issue '' @ Itoa 7) #
               (if False then [] else Call (EditCall (IssueNumber issue) (GetNumber (Some example_stone))) # rest)
           \<and> (\<forall>e \<in> set rest. \<exists>l. e = Log l)"
    by blast
  from s8 a s7 b show ?thesis by (intro conjI)
qed

text \<open>
  Claim C3 as stated says that a pull request is skipped. \<open>createMilestone\<close> has no such
  test: number 7 of the example repository is a closed pull request without a milestone,
  referenced by the trailer \<open>(#7)\<close>, and the run assigns the milestone to it.
\<close>

theorem createMilestone_marks_pull_request:
  "Issues_Get example_client 7 = Inr (example_issue 7 ''closed'' ''lib: fix crash'' [] True)
   \<and> IsPullRequest (example_issue 7 ''closed'' ''lib: fix crash'' [] True)
   \<and> createMilestone example_client ''v0.9.0'' ''HEAD'' ''v1.0.0'' False False =
       (None,
        [Call (ListMilestonesCall 0), Call (CompareCommitsCall ''v0.9.0'' ''HEAD''),
         Call (GetCall 5), Log ''Marking issue 5'', Call (EditCall 5 1),
         Call (GetCall 7), Log ''Marking issue 7'', Call (EditCall 7 1),
         Call (GetCall 8), Log ''Issue 8 is not closed; not marking''])"
proof (intro conjI)
  show "Issues_Get example_client 7 = Inr (example_issue 7 ''closed'' ''lib: fix crash'' [] True)"
    by (simp add: example_client_def)
  show "IsPullRequest (example_issue 7 ''closed'' ''lib: fix crash'' [] True)"
    by (simp add: IsPullRequest_def example_issue_def)
  have "Repositories_CompareCommits example_client ''v0.9.0'' ''HEAD'' = Inr example_commits"
    by (simp add: example_client_def)
  then show "createMilestone example_client ''v0.9.0'' ''HEAD'' ''v1.0.0'' False False =
       (None,
        [Call (ListMilestonesCall 0), Call (CompareCommitsCall ''v0.9.0'' ''HEAD''),
         Call (GetCall 5), Log ''Marking issue 5'', Call (EditCall 5 1),
         Call (GetCall 7), Log ''Marking issue 7'', Call (EditCall 7 1),
         Call (GetCall 8), Log ''Issue 8 is not closed; not marking''])"
    by (simp add: createMilestone_def example_getMilestone listCommits_def example_getFixes
        example_issues_marked del: createMilestone_issues.simps)
qed

subsection \<open>Dry runs\<close>



lemma getMilestone_pages_events:
  "e \<in> set (snd (getMilestone_pages client name page)) \<Longrightarrow> \<exists>p. e = Call (ListMilestonesCall p)"
proof (induction client name page rule: getMilestone_pages.induct)
  case (1 client name page)
  show ?case
  proof (cases "listPage (Issues_ListMilestones client) page")
    case (Inl err)
    with "1.prems" show ?thesis
      by (simp add: getMilestone_pages.simps [of client name page])
  next
    case (Inr r)
    obtain stones nextPage where r: "r = (stones, nextPage)" by (cases r)
    show ?thesis
    proof (cases "find (\<lambda>stone. MilestoneTitle stone = name) stones")
      case (Some stone)
      with "1.prems" Inr r show ?thesis
        by (simp add: getMilestone_pages.simps [of client name page])
    next
      case None
      show ?thesis
      proof (cases "nextPage \<le> page")
        case True
        with "1.prems" Inr r None show ?thesis
          by (simp add: getMilestone_pages.simps [of client name page])
      next
        case False
        with "1.prems" Inr r None
        have "e = Call (ListMilestonesCall page)
              \<or> e \<in> set (snd (getMilestone_pages client name nextPage))"
          by (auto simp: getMilestone_pages.simps [of client name page] split: prod.splits)
        then show ?thesis
          using "1.IH" [OF Inr r [symmetric] None False] by blast
      qed
    qed
  qed
qed

lemma getMilestone_events:
  "e \<in> set (snd (getMilestone client name)) \<Longrightarrow> \<exists>p. e = Call (ListMilestonesCall p)"
  unfolding getMilestone_def by (rule getMilestone_pages_events)




















subsection \<open>Release names and milestone titles\<close>

lemma SplitN_2: "SplitN r sep 2 = (if sep \<in> set r
     then [takeWhile (\<lambda>c. c \<noteq> sep) r, tl (dropWhile (\<lambda>c. c \<noteq> sep) r)] else [r])"
  by (simp add: numeral_2_eq_2)

lemma hd_SplitN_2: "hd (SplitN r sep 2) = takeWhile (\<lambda>c. c \<noteq> sep) r"
proof (cases "sep \<in> set r")
  case True
  then show ?thesis by (simp add: SplitN_2)
next
  case False
  then have eq: "takeWhile (\<lambda>c. c \<noteq> sep) r = r"
    unfolding takeWhile_eq_all_conv by blast
  show ?thesis by (simp add: SplitN_2 False eq)
qed

lemma title_eq_release: "(takeWhile (\<lambda>c. c \<noteq> sep) r = r) = (sep \<notin> set r)"
  by (auto simp: takeWhile_eq_all_conv)

subsection \<open>The buckets of the changelog\<close>

text \<open>An issue carries a label; an issue is left out of the changelog.\<close>

definition hasLabel :: "string \<Rightarrow> Issue \<Rightarrow> bool" where
  "hasLabel l issue = (l \<in> LabelName ` set (IssueLabels issue))"

definition excluded :: "string list \<Rightarrow> Issue \<Rightarrow> bool" where
  "excluded skipLabels issue =
     (IsPullRequest issue \<or> (\<exists>l \<in> set skipLabels. hasLabel l issue))"

lemma contains_iff: "contains s ss = (s \<in> set ss)"
  by (induction ss) auto

lemma contains_labels: "contains l (labels issue) = hasLabel l issue"
  by (simp add: contains_iff labels_def hasLabel_def)

lemma skip_excluded:
  "(IsPullRequest issue \<or> list_ex (\<lambda>skip. contains skip (labels issue)) skipLabels)
   = excluded skipLabels issue"
  by (simp add: excluded_def contains_labels list_ex_iff)

lemma changelog_buckets_filter:
  "changelog_buckets skipLabels (bugs, enhancements, other) issues =
     (bugs @ filter (\<lambda>i. \<not> excluded skipLabels i \<and> hasLabel ''bug'' i) issues,
      enhancements @ filter (\<lambda>i. \<not> excluded skipLabels i \<and> \<not> hasLabel ''bug'' i
                                  \<and> hasLabel ''enhancement'' i) issues,
      other @ filter (\<lambda>i. \<not> excluded skipLabels i \<and> \<not> hasLabel ''bug'' i
                           \<and> \<not> hasLabel ''enhancement'' i) issues)"
proof (induction issues arbitrary: bugs enhancements other)
  case Nil
  show ?case by simp
next
  case (Cons issue issues)
  show ?case
  proof (cases "excluded skipLabels issue")
    case True
    then have "IsPullRequest issue \<or> list_ex (\<lambda>skip. contains skip (labels issue)) skipLabels"
      by (simp add: skip_excluded)
    then have "changelog_buckets skipLabels (bugs, enhancements, other) (issue # issues)
               = changelog_buckets skipLabels (bugs, enhancements, other) issues"
      by auto
    with True show ?thesis by (simp add: Cons.IH)
  next
    case False
    then have n: "\<not> IsPullRequest issue"
      "\<not> list_ex (\<lambda>skip. contains skip (labels issue)) skipLabels"
      using skip_excluded [of issue skipLabels] by auto
    show ?thesis
      using False n by (simp add: Cons.IH contains_labels)
  qed
qed

lemma changelog_buckets_kept:
  "changelog_buckets skipLabels ([], [], []) (filter (\<lambda>i. \<not> excluded skipLabels i) issues)
   = changelog_buckets skipLabels ([], [], []) issues"
  unfolding changelog_buckets_filter by (simp add: conj_ac cong: conj_cong)

text \<open>
  What \<open>sort.Slice\<close> guarantees determines the result when no two issues have the same
  number: it is then the list that the stable insertion sort gives.
\<close>

lemma sortsByNumber_sort_key: "sortsByNumber (sort_key IssueNumber)"
  by (simp add: sortsByNumber_def)

lemma filter_distinct_key:
  "distinct (map f xs) \<Longrightarrow> k \<in> set xs \<Longrightarrow> filter (\<lambda>x. f k = f x) xs = [k]"
proof (induction xs)
  case Nil
  then show ?case by simp
next
  case (Cons x xs)
  show ?case
  proof (cases "k = x")
    case True
    have "filter (\<lambda>y. f x = f y) xs = []"
      using Cons.prems(1) by (auto simp: filter_empty_conv)
    with True show ?thesis by simp
  next
    case False
    with Cons.prems have k: "k \<in> set xs" and d: "distinct (map f xs)" by auto
    from Cons.prems(1) have "f x \<notin> f ` set xs" by simp
    with k have "f k \<noteq> f x" by (metis imageI)
    with Cons.IH [OF d k] show ?thesis by simp
  qed
qed

lemma sortsByNumber_unique:
  assumes s: "sortsByNumber sortSlice" and d: "distinct (map IssueNumber issues)"
  shows "sortSlice issues = sort_key IssueNumber issues"
proof -
  let ?ys = "sortSlice issues"
  from s have m: "mset ?ys = mset issues" and o: "sorted (map IssueNumber ?ys)"
    by (simp_all add: sortsByNumber_def)
  from m have "mset (map IssueNumber ?ys) = mset (map IssueNumber issues)"
    by simp
  with d have d': "distinct (map IssueNumber ?ys)"
    by (metis mset_eq_imp_distinct_iff)
  from m have e: "set ?ys = set issues"
    by (rule mset_eq_setD)
  have "sort_key IssueNumber issues = ?ys"
  proof (rule properties_for_sort_key [OF m _ o])
    fix k
    assume k: "k \<in> set ?ys"
    then have k': "k \<in> set issues" by (simp add: e)
    show "filter (\<lambda>x. IssueNumber k = IssueNumber x) ?ys
          = filter (\<lambda>x. IssueNumber k = IssueNumber x) issues"
      by (simp only: filter_distinct_key [OF d' k] filter_distinct_key [OF d k'])
  qed
  then show ?thesis by (rule sym)
qed

lemma sortsByNumber_filter:
  assumes s: "sortsByNumber sortSlice" and d: "distinct (map IssueNumber issues)"
  shows "sortSlice (filter P issues) = filter P (sortSlice issues)"
proof -
  from d have "distinct (map IssueNumber (filter P issues))"
    by (rule distinct_map_filter)
  then have "sortSlice (filter P issues) = sort_key IssueNumber (filter P issues)"
    by (rule sortsByNumber_unique [OF s])
  also have "\<dots> = filter P (sort_key IssueNumber issues)"
    by (rule filter_sort [symmetric])
  also have "\<dots> = filter P (sortSlice issues)"
    by (simp only: sortsByNumber_unique [OF s d])
  finally show ?thesis .
qed

lemma excluded_in_no_bucket:
  assumes "changelog_buckets skipLabels ([], [], []) issues = (bugs, enhancements, other)"
    and "excluded skipLabels i"
  shows "i \<notin> set bugs \<and> i \<notin> set enhancements \<and> i \<notin> set other"
  using assms unfolding changelog_buckets_filter by auto

lemma example_listIssues:
  "listIssues_pages example_client ''1'' 0 =
     (Inr [example_listed 3 ''Typo'' [] False,
           example_listed 7 ''lib: fix crash'' [''bug''] True,
           example_listed 1 ''Crash on start'' [''bug''] False,
           example_listed 4 ''Old bug'' [''wontfix'', ''bug''] False,
           example_listed 2 ''Add flag'' [''enhancement''] False],
      [Call (ListByRepoCall ''1'' 0), Call (ListByRepoCall ''1'' 2)])"
  by (simp add: listIssues_pages.simps listPage_def example_client_def example_listing_def)

lemma example_Itoa_small: "Itoa 1 = ''1''" "Itoa 2 = ''2''" "Itoa 3 = ''3''" "Itoa 4 = ''4''"
  by code_simp+

lemma example_listed_simps:
  "IssueNumber (example_listed n title ls pr) = n"
  "IssueTitle (example_listed n title ls pr) = title"
  "IssueLabels (example_listed n title ls pr) = map (\<lambda>l. \<lparr>LabelName = l\<rparr>) ls"
  "IsPullRequest (example_listed n title ls pr) = pr"
  by (simp_all add: example_listed_def example_issue_def IsPullRequest_def)

lemma example_sorted:
  "sort_key IssueNumber
     [example_listed 3 ''Typo'' [] False,
      example_listed 7 ''lib: fix crash'' [''bug''] True,
      example_listed 1 ''Crash on start'' [''bug''] False,
      example_listed 4 ''Old bug'' [''wontfix'', ''bug''] False,
      example_listed 2 ''Add flag'' [''enhancement''] False]
   = [example_listed 1 ''Crash on start'' [''bug''] False,
      example_listed 2 ''Add flag'' [''enhancement''] False,
      example_listed 3 ''Typo'' [] False,
      example_listed 4 ''Old bug'' [''wontfix'', ''bug''] False,
      example_listed 7 ''lib: fix crash'' [''bug''] True]"
  by (simp add: example_listed_simps)

lemma example_buckets:
  "changelog_buckets [''wontfix''] ([], [], [])
     [example_listed 1 ''Crash on start'' [''bug''] False,
      example_listed 2 ''Add flag'' [''enhancement''] False,
      example_listed 3 ''Typo'' [] False,
      example_listed 4 ''Old bug'' [''wontfix'', ''bug''] False,
      example_listed 7 ''lib: fix crash'' [''bug''] True]
   = ([example_listed 1 ''Crash on start'' [''bug''] False],
      [example_listed 2 ''Add flag'' [''enhancement''] False],
      [example_listed 3 ''Typo'' [] False])"
  unfolding changelog_buckets_filter
  by (simp add: excluded_def hasLabel_def example_listed_simps)

text \<open>The changelog of the example without its heading.\<close>

definition example_body :: string where
  "example_body =
     ''Bugfixes:'' @ [CHR 0x0A, CHR 0x0A] @ ''- #1: Crash on start'' @ [CHR 0x0A, CHR 0x0A]
     @ ''Enhancements:'' @ [CHR 0x0A, CHR 0x0A] @ ''- #2: Add flag'' @ [CHR 0x0A, CHR 0x0A]
     @ ''Other issues:'' @ [CHR 0x0A, CHR 0x0A] @ ''- #3: Typo'' @ [CHR 0x0A, CHR 0x0A]"

lemma example_sections:
  "changelog_section ''Bugfixes'' [example_listed 1 ''Crash on start'' [''bug''] False] False
   @ changelog_section ''Enhancements'' [example_listed 2 ''Add flag'' [''enhancement''] False] False
   @ changelog_section ''Other issues'' [example_listed 3 ''Typo'' [] False] False
   = example_body"
  by (simp add: changelog_section_def example_listed_simps example_Itoa_small example_body_def)

lemma example_changelog_text:
  "changelog_text (sort_key IssueNumber) owner repo release False [''wontfix''] withSubject example_stone
     [example_listed 3 ''Typo'' [] False,
      example_listed 7 ''lib: fix crash'' [''bug''] True,
      example_listed 1 ''Crash on start'' [''bug''] False,
      example_listed 4 ''Old bug'' [''wontfix'', ''bug''] False,
      example_listed 2 ''Add flag'' [''enhancement''] False]
   = (if withSubject then release @ [CHR 0x0A, CHR 0x0A] else []) @ example_body"
proof -
  have d: "MilestoneDescription example_stone = []"
    by (simp add: example_stone_def)
  show ?thesis
    unfolding changelog_text_def example_sorted example_buckets
    by (simp only: d example_sections prod.case if_False if_True simp_thms append_Nil)
qed

lemma example_changelog:
  "changelog (sort_key IssueNumber) example_client owner repo ''v1.0.0'' False [''wontfix''] withSubject
   = (Inr ((if withSubject then ''v1.0.0'' @ [CHR 0x0A, CHR 0x0A] else []) @ example_body),
      [Call (ListMilestonesCall 0), Call (ListByRepoCall ''1'' 0), Call (ListByRepoCall ''1'' 2)])"
proof -
  have m: "hd (SplitN ''v1.0.0'' CHR ''-'' 2) = ''v1.0.0''"
    by (simp add: hd_SplitN_2)
  have n: "Itoa (MilestoneNumber example_stone) = ''1''"
    by (simp add: example_stone_def example_Itoa_small)
  show ?thesis
    unfolding changelog_def Let_def m example_getMilestone
    by (simp only: prod.case sum.case n example_listIssues example_changelog_text append.simps)
qed

lemma example_changelog_rc:
  "changelog (sort_key IssueNumber) example_client owner repo ''v1.0.0-rc.1'' False [''wontfix''] withSubject
   = (Inr ((if withSubject then ''v1.0.0-rc.1'' @ [CHR 0x0A, CHR 0x0A] else []) @ example_body),
      [Call (ListMilestonesCall 0), Call (ListByRepoCall ''1'' 0), Call (ListByRepoCall ''1'' 2)])"
proof -
  have m: "hd (SplitN ''v1.0.0-rc.1'' CHR ''-'' 2) = ''v1.0.0''"
    by (simp add: hd_SplitN_2)
  have n: "Itoa (MilestoneNumber example_stone) = ''1''"
    by (simp add: example_stone_def example_Itoa_small)
  show ?thesis
    unfolding changelog_def Let_def m example_getMilestone
    by (simp only: prod.case sum.case n example_listIssues example_changelog_text append.simps)
qed

lemma getMilestone_pages_title:
  "getMilestone_pages client name page = (Inr stone, t) \<Longrightarrow> MilestoneTitle stone = name"
proof (induction client name page arbitrary: t rule: getMilestone_pages.induct)
  case (1 client name page)
  show ?case
  proof (cases "listPage (Issues_ListMilestones client) page")
    case (Inl err)
    with "1.prems" show ?thesis
      by (simp add: getMilestone_pages.simps [of client name page])
  next
    case (Inr r)
    obtain stones nextPage where r: "r = (stones, nextPage)" by (cases r)
    show ?thesis
    proof (cases "find (\<lambda>stone. MilestoneTitle stone = name) stones")
      case (Some s)
      with "1.prems" Inr r have "s = stone"
        by (simp add: getMilestone_pages.simps [of client name page])
      with Some show ?thesis by (auto simp: find_Some_iff)
    next
      case None
      show ?thesis
      proof (cases "nextPage \<le> page")
        case True
        with "1.prems" Inr r None show ?thesis
          by (simp add: getMilestone_pages.simps [of client name page])
      next
        case False
        with "1.prems" Inr r None
        obtain t' where "getMilestone_pages client name nextPage = (Inr stone, t')"
          by (auto simp: getMilestone_pages.simps [of client name page] split: prod.splits)
        then show ?thesis
          using "1.IH" [OF Inr r [symmetric] None False] by blast
      qed
    qed
  qed
qed

lemma getMilestone_title:
  "getMilestone client name = (Inr stone, t) \<Longrightarrow> MilestoneTitle stone = name"
  unfolding getMilestone_def by (rule getMilestone_pages_title)

lemma listIssues_pages_events:
  "e \<in> set (snd (listIssues_pages client milestone page)) \<Longrightarrow> \<exists>p. e = Call (ListByRepoCall milestone p)"
proof (induction client milestone page rule: listIssues_pages.induct)
  case (1 client milestone page)
  show ?case
  proof (cases "listPage (Issues_ListByRepo client milestone) page")
    case (Inl err)
    with "1.prems" show ?thesis
      by (simp add: listIssues_pages.simps [of client milestone page])
  next
    case (Inr r)
    obtain "is" nextPage where r: "r = (is, nextPage)" by (cases r)
    show ?thesis
    proof (cases "nextPage \<le> page")
      case True
      with "1.prems" Inr r show ?thesis
        by (simp add: listIssues_pages.simps [of client milestone page])
    next
      case False
      with "1.prems" Inr r
      have "e = Call (ListByRepoCall milestone page)
            \<or> e \<in> set (snd (listIssues_pages client milestone nextPage))"
        by (auto simp: listIssues_pages.simps [of client milestone page] split: prod.splits sum.splits)
      then show ?thesis
        using "1.IH" [OF Inr r [symmetric] False] by blast
    qed
  qed
qed

text \<open>The events of a run that are mutating requests.\<close>

fun mutation :: "event \<Rightarrow> bool" where
  "mutation (Call c) = mutating c"
| "mutation (Log l) = False"

lemma getMilestone_no_mutation: "filter mutation (snd (getMilestone client name)) = []"
proof -
  have "\<forall>e \<in> set (snd (getMilestone client name)). \<not> mutation e"
    using getMilestone_events [of _ client name] by fastforce
  then show ?thesis by (simp add: filter_empty_conv)
qed

lemma listIssues_no_mutation: "filter mutation (snd (listIssues_pages client milestone page)) = []"
proof -
  have "\<forall>e \<in> set (snd (listIssues_pages client milestone page)). \<not> mutation e"
    using listIssues_pages_events [of _ client milestone page] by fastforce
  then show ?thesis by (simp add: filter_empty_conv)
qed

lemma changelog_cases:
  obtains (NoMilestone) err t0 where
      "getMilestone client (hd (SplitN release CHR ''-'' 2)) = (Inl err, t0)"
      "changelog sortSlice client owner repo release md skipLabels withSubject
         = (Inl (Error (''getting milestone: '' @ errorString err)), t0)"
  | (NoIssues) stone t0 err t1 where
      "getMilestone client (hd (SplitN release CHR ''-'' 2)) = (Inr stone, t0)"
      "listIssues_pages client (Itoa (MilestoneNumber stone)) 0 = (Inl err, t1)"
      "changelog sortSlice client owner repo release md skipLabels withSubject
         = (Inl (Error (''listing issues: '' @ errorString err)), t0 @ t1)"
  | (Rendered) stone t0 issues t1 where
      "getMilestone client (hd (SplitN release CHR ''-'' 2)) = (Inr stone, t0)"
      "listIssues_pages client (Itoa (MilestoneNumber stone)) 0 = (Inr issues, t1)"
      "changelog sortSlice client owner repo release md skipLabels withSubject
         = (Inr (changelog_text sortSlice owner repo release md skipLabels withSubject stone issues), t0 @ t1)"
proof -
  obtain found t0 where g: "getMilestone client (hd (SplitN release CHR ''-'' 2)) = (found, t0)"
    by (cases "getMilestone client (hd (SplitN release CHR ''-'' 2))")
  show ?thesis
  proof (cases found)
    case (Inl err)
    with g show ?thesis by (intro NoMilestone [of err t0]) (simp_all add: changelog_def)
  next
    case (Inr stone)
    obtain listed t1 where l: "listIssues_pages client (Itoa (MilestoneNumber stone)) 0 = (listed, t1)"
      by (cases "listIssues_pages client (Itoa (MilestoneNumber stone)) 0")
    show ?thesis
    proof (cases listed)
      case (Inl err)
      with g Inr l show ?thesis by (intro NoIssues [of stone t0 err t1]) (simp_all add: changelog_def)
    next
      case issues: (Inr issues)
      with g Inr l show ?thesis by (intro Rendered [of stone t0 issues t1]) (simp_all add: changelog_def)
    qed
  qed
qed

lemma changelog_no_mutation:
  "filter mutation (snd (changelog sortSlice client owner repo release md skipLabels withSubject)) = []"
proof (cases rule: changelog_cases [of client release sortSlice owner repo md skipLabels withSubject])
  case (NoMilestone err t0)
  then show ?thesis using getMilestone_no_mutation [of client "hd (SplitN release CHR ''-'' 2)"] by simp
next
  case (NoIssues stone t0 err t1)
  then show ?thesis
    using getMilestone_no_mutation [of client "hd (SplitN release CHR ''-'' 2)"]
      listIssues_no_mutation [of client "Itoa (MilestoneNumber stone)" 0] by simp
next
  case (Rendered stone t0 issues t1)
  then show ?thesis
    using getMilestone_no_mutation [of client "hd (SplitN release CHR ''-'' 2)"]
      listIssues_no_mutation [of client "Itoa (MilestoneNumber stone)" 0] by simp
qed

lemma createRelease_mutations:
  assumes "getMilestone client (hd (SplitN release CHR ''-'' 2)) = (Inr stone, t0)"
  shows "filter mutation (snd (createRelease client release body))
         = Call (CreateReleaseCall \<lparr>Name = release, TagName = release, Body = body,
                   Prerelease = (release \<noteq> hd (SplitN release CHR ''-'' 2)), Draft = False\<rparr>)
           # (if Repositories_CreateRelease client
                   \<lparr>Name = release, TagName = release, Body = body,
                    Prerelease = (release \<noteq> hd (SplitN release CHR ''-'' 2)), Draft = False\<rparr> = None
                 \<and> release = hd (SplitN release CHR ''-'' 2)
              then [Call (EditMilestoneCall (MilestoneNumber stone) ''closed'')] else [])"
proof -
  have "filter mutation t0 = []"
    using getMilestone_no_mutation [of client "hd (SplitN release CHR ''-'' 2)"] assms by simp
  then show ?thesis
    using assms by (auto simp: createRelease_def Let_def split: option.splits)
qed

subsection \<open>The claims about the changelog and the release\<close>

text \<open>
  A service whose one milestone, numbered 1, is titled \<open>v1.2.0\<close>; the rest is the example.
\<close>

definition example_stone_v120 :: Milestone where
  "example_stone_v120 = example_stone\<lparr>MilestoneTitle := ''v1.2.0''\<rparr>"

definition example_client_v120 :: client where
  "example_client_v120 = example_client\<lparr>Issues_ListMilestones := [Inr [example_stone_v120]]\<rparr>"

lemma example_getMilestone_v120:
  "getMilestone example_client_v120 ''v1.2.0''
   = (Inr example_stone_v120, [Call (ListMilestonesCall 0)])"
  by (simp add: getMilestone_def getMilestone_pages.simps listPage_def example_client_v120_def
      example_client_def example_stone_v120_def example_stone_def)

lemma example_getMilestone_v120_missing:
  "getMilestone example_client_v120 ''v1.0.0''
   = (Inl (Error ''not found''), [Call (ListMilestonesCall 0)])"
  by (simp add: getMilestone_def getMilestone_pages.simps listPage_def example_client_v120_def
      example_client_def example_stone_v120_def example_stone_def)

lemma example_listIssues_v120:
  "listIssues_pages example_client_v120 (Itoa (MilestoneNumber example_stone_v120)) 0
   = listIssues_pages example_client ''1'' 0"
proof -
  have n: "Itoa (MilestoneNumber example_stone_v120) = ''1''"
    by (simp add: example_stone_v120_def example_stone_def example_Itoa_small)
  show ?thesis
    unfolding n example_listIssues
    by (simp add: listIssues_pages.simps listPage_def example_client_v120_def example_client_def
        example_listing_def)
qed

lemma changelog_lookup_failed:
  assumes "getMilestone client (takeWhile (\<lambda>c. c \<noteq> CHR ''-'') r) = (Inl err, t0)"
  shows "changelog sortSlice client owner repo r md skipLabels withSubject
         = (Inl (Error (''getting milestone: '' @ errorString err)), t0)"
  using assms by (simp add: changelog_def hd_SplitN_2)

lemma changelog_lookup_found:
  assumes "getMilestone client (takeWhile (\<lambda>c. c \<noteq> CHR ''-'') r) = (Inr stone, t0)"
  shows "changelog sortSlice client owner repo r md skipLabels withSubject
         = (case listIssues_pages client (Itoa (MilestoneNumber stone)) 0 of
              (Inl err, t1) \<Rightarrow> (Inl (Error (''listing issues: '' @ errorString err)), t0 @ t1)
            | (Inr issues, t1) \<Rightarrow>
                (Inr (changelog_text sortSlice owner repo r md skipLabels withSubject stone issues),
                 t0 @ t1))"
  using assms by (simp add: changelog_def hd_SplitN_2)

lemma changelog_lookup_events:
  assumes "getMilestone client (takeWhile (\<lambda>c. c \<noteq> CHR ''-'') r) = (Inr stone, t0)"
  shows "snd (changelog sortSlice client owner repo r md skipLabels withSubject)
         = t0 @ snd (listIssues_pages client (Itoa (MilestoneNumber stone)) 0)"
  unfolding changelog_lookup_found [OF assms] by (simp split: prod.splits sum.splits)

lemma createRelease_lookup_failed:
  assumes "getMilestone client (takeWhile (\<lambda>c. c \<noteq> CHR ''-'') r) = (Inl err, t0)"
  shows "createRelease client r body
         = (Some (Error (''getting milestone: '' @ errorString err)), t0)"
  using assms by (simp add: createRelease_def hd_SplitN_2)

lemma createRelease_lookup_found:
  assumes "getMilestone client (takeWhile (\<lambda>c. c \<noteq> CHR ''-'') r) = (Inr stone, t0)"
  shows "snd (createRelease client r body)
         = t0 @ Call (CreateReleaseCall
                        \<lparr>Name = r, TagName = r, Body = body,
                         Prerelease = (r \<noteq> takeWhile (\<lambda>c. c \<noteq> CHR ''-'') r), Draft = False\<rparr>)
             # (if Repositories_CreateRelease client
                     \<lparr>Name = r, TagName = r, Body = body,
                      Prerelease = (r \<noteq> takeWhile (\<lambda>c. c \<noteq> CHR ''-'') r), Draft = False\<rparr> = None
                   \<and> r = takeWhile (\<lambda>c. c \<noteq> CHR ''-'') r
                then [Call (EditMilestoneCall (MilestoneNumber stone) ''closed'')]
                else [])"
  using assms by (auto simp: createRelease_def hd_SplitN_2 Let_def split: option.splits)

text \<open>
  Claim C4. For every release name \<open>r\<close> and every service, the changelog and the release
  look up the milestone whose title is the part of \<open>r\<close> before the first \<open>-\<close>, which is
  \<open>r\<close> itself exactly when \<open>r\<close> has no \<open>-\<close>. When no milestone of that title is found,
  both fail with the error of the lookup. When one is found, it has that title, the
  changelog lists and renders the issues of that very milestone, and the release sent has
  its prerelease flag set exactly when \<open>r\<close> differs from the title; the milestone closed
  after a release that is no prerelease is that very milestone. On a service with a
  milestone \<open>v1.2.0\<close>, the release \<open>v1.2.0\<close> is sent with prerelease false and the release
  \<open>v1.2.0-rc.1\<close> with prerelease true, and the changelogs of both names list the issues of
  the milestone \<open>v1.2.0\<close>.
\<close>

theorem release_milestone_title:
  "hd (SplitN r CHR ''-'' 2) = takeWhile (\<lambda>c. c \<noteq> CHR ''-'') r
   \<and> (takeWhile (\<lambda>c. c \<noteq> CHR ''-'') r = r) = (CHR ''-'' \<notin> set r)
   \<and> (\<forall>err t0.
        getMilestone client (takeWhile (\<lambda>c. c \<noteq> CHR ''-'') r) = (Inl err, t0) \<longrightarrow>
        changelog sortSlice client owner repo r md skipLabels withSubject
          = (Inl (Error (''getting milestone: '' @ errorString err)), t0)
        \<and> createRelease client r body
          = (Some (Error (''getting milestone: '' @ errorString err)), t0))
   \<and> (\<forall>stone t0.
        getMilestone client (takeWhile (\<lambda>c. c \<noteq> CHR ''-'') r) = (Inr stone, t0) \<longrightarrow>
        MilestoneTitle stone = takeWhile (\<lambda>c. c \<noteq> CHR ''-'') r
        \<and> changelog sortSlice client owner repo r md skipLabels withSubject
          = (case listIssues_pages client (Itoa (MilestoneNumber stone)) 0 of
               (Inl err, t1) \<Rightarrow> (Inl (Error (''listing issues: '' @ errorString err)), t0 @ t1)
             | (Inr issues, t1) \<Rightarrow>
                 (Inr (changelog_text sortSlice owner repo r md skipLabels withSubject stone issues),
                  t0 @ t1))
        \<and> snd (createRelease client r body)
          = t0 @ Call (CreateReleaseCall
                         \<lparr>Name = r, TagName = r, Body = body,
                          Prerelease = (r \<noteq> takeWhile (\<lambda>c. c \<noteq> CHR ''-'') r), Draft = False\<rparr>)
              # (if Repositories_CreateRelease client
                      \<lparr>Name = r, TagName = r, Body = body,
                       Prerelease = (r \<noteq> takeWhile (\<lambda>c. c \<noteq> CHR ''-'') r), Draft = False\<rparr> = None
                    \<and> r = takeWhile (\<lambda>c. c \<noteq> CHR ''-'') r
                 then [Call (EditMilestoneCall (MilestoneNumber stone) ''closed'')]
                 else []))
   \<and> (\<forall>stone t0.
        getMilestone client ''v1.2.0'' = (Inr stone, t0) \<longrightarrow>
        snd (createRelease client ''v1.2.0'' body)
          = t0 @ Call (CreateReleaseCall
                         \<lparr>Name = ''v1.2.0'', TagName = ''v1.2.0'', Body = body,
                          Prerelease = False, Draft = False\<rparr>)
              # (if Repositories_CreateRelease client
                      \<lparr>Name = ''v1.2.0'', TagName = ''v1.2.0'', Body = body,
                       Prerelease = False, Draft = False\<rparr> = None
                 then [Call (EditMilestoneCall (MilestoneNumber stone) ''closed'')]
                 else [])
        \<and> snd (createRelease client ''v1.2.0-rc.1'' body)
          = t0 @ [Call (CreateReleaseCall
                          \<lparr>Name = ''v1.2.0-rc.1'', TagName = ''v1.2.0-rc.1'', Body = body,
                           Prerelease = True, Draft = False\<rparr>)]
        \<and> snd (changelog sortSlice client owner repo ''v1.2.0'' md skipLabels withSubject)
          = t0 @ snd (listIssues_pages client (Itoa (MilestoneNumber stone)) 0)
        \<and> snd (changelog sortSlice client owner repo ''v1.2.0-rc.1'' md skipLabels withSubject)
          = t0 @ snd (listIssues_pages client (Itoa (MilestoneNumber stone)) 0))"
proof (intro conjI allI impI)
  show "hd (SplitN r CHR ''-'' 2) = takeWhile (\<lambda>c. c \<noteq> CHR ''-'') r"
    by (rule hd_SplitN_2)
  show "(takeWhile (\<lambda>c. c \<noteq> CHR ''-'') r = r) = (CHR ''-'' \<notin> set r)"
    by (rule title_eq_release)
next
  fix err t0
  assume g: "getMilestone client (takeWhile (\<lambda>c. c \<noteq> CHR ''-'') r) = (Inl err, t0)"
  show "changelog sortSlice client owner repo r md skipLabels withSubject
          = (Inl (Error (''getting milestone: '' @ errorString err)), t0)"
    using g by (rule changelog_lookup_failed)
  show "createRelease client r body
          = (Some (Error (''getting milestone: '' @ errorString err)), t0)"
    using g by (rule createRelease_lookup_failed)
next
  fix stone t0
  assume g: "getMilestone client (takeWhile (\<lambda>c. c \<noteq> CHR ''-'') r) = (Inr stone, t0)"
  show "MilestoneTitle stone = takeWhile (\<lambda>c. c \<noteq> CHR ''-'') r"
    using g by (rule getMilestone_title)
  show "changelog sortSlice client owner repo r md skipLabels withSubject
          = (case listIssues_pages client (Itoa (MilestoneNumber stone)) 0 of
               (Inl err, t1) \<Rightarrow> (Inl (Error (''listing issues: '' @ errorString err)), t0 @ t1)
             | (Inr issues, t1) \<Rightarrow>
                 (Inr (changelog_text sortSlice owner repo r md skipLabels withSubject stone issues),
                  t0 @ t1))"
    using g by (rule changelog_lookup_found)
  show "snd (createRelease client r body)
          = t0 @ Call (CreateReleaseCall
                         \<lparr>Name = r, TagName = r, Body = body,
                          Prerelease = (r \<noteq> takeWhile (\<lambda>c. c \<noteq> CHR ''-'') r), Draft = False\<rparr>)
              # (if Repositories_CreateRelease client
                      \<lparr>Name = r, TagName = r, Body = body,
                       Prerelease = (r \<noteq> takeWhile (\<lambda>c. c \<noteq> CHR ''-'') r), Draft = False\<rparr> = None
                    \<and> r = takeWhile (\<lambda>c. c \<noteq> CHR ''-'') r
                 then [Call (EditMilestoneCall (MilestoneNumber stone) ''closed'')]
                 else [])"
    using g by (rule createRelease_lookup_found)
next
  fix stone t0
  assume g: "getMilestone client ''v1.2.0'' = (Inr stone, t0)"
  have f: "takeWhile (\<lambda>c. c \<noteq> CHR ''-'') ''v1.2.0'' = ''v1.2.0''"
    and p: "takeWhile (\<lambda>c. c \<noteq> CHR ''-'') ''v1.2.0-rc.1'' = ''v1.2.0''"
    by simp_all
  from g have gf: "getMilestone client (takeWhile (\<lambda>c. c \<noteq> CHR ''-'') ''v1.2.0'') = (Inr stone, t0)"
    and gp: "getMilestone client (takeWhile (\<lambda>c. c \<noteq> CHR ''-'') ''v1.2.0-rc.1'') = (Inr stone, t0)"
    by (simp_all only: f p)
  show "snd (createRelease client ''v1.2.0'' body)
          = t0 @ Call (CreateReleaseCall
                         \<lparr>Name = ''v1.2.0'', TagName = ''v1.2.0'', Body = body,
                          Prerelease = False, Draft = False\<rparr>)
              # (if Repositories_CreateRelease client
                      \<lparr>Name = ''v1.2.0'', TagName = ''v1.2.0'', Body = body,
                       Prerelease = False, Draft = False\<rparr> = None
                 then [Call (EditMilestoneCall (MilestoneNumber stone) ''closed'')]
                 else [])"
    unfolding createRelease_lookup_found [OF gf] by (simp only: f simp_thms)
  show "snd (createRelease client ''v1.2.0-rc.1'' body)
          = t0 @ [Call (CreateReleaseCall
                          \<lparr>Name = ''v1.2.0-rc.1'', TagName = ''v1.2.0-rc.1'', Body = body,
                           Prerelease = True, Draft = False\<rparr>)]"
    unfolding createRelease_lookup_found [OF gp] by (simp add: p)
  show "snd (changelog sortSlice client owner repo ''v1.2.0'' md skipLabels withSubject)
          = t0 @ snd (listIssues_pages client (Itoa (MilestoneNumber stone)) 0)"
    using gf by (rule changelog_lookup_events)
  show "snd (changelog sortSlice client owner repo ''v1.2.0-rc.1'' md skipLabels withSubject)
          = t0 @ snd (listIssues_pages client (Itoa (MilestoneNumber stone)) 0)"
    using gp by (rule changelog_lookup_events)
qed

theorem release_milestone_title_witness:
  "getMilestone example_client_v120 ''v1.2.0''
     = (Inr example_stone_v120, [Call (ListMilestonesCall 0)])
   \<and> MilestoneTitle example_stone_v120 = ''v1.2.0''
   \<and> snd (createRelease example_client_v120 ''v1.2.0'' example_body)
     = [Call (ListMilestonesCall 0),
        Call (CreateReleaseCall \<lparr>Name = ''v1.2.0'', TagName = ''v1.2.0'', Body = example_body,
                                 Prerelease = False, Draft = False\<rparr>),
        Call (EditMilestoneCall 1 ''closed'')]
   \<and> snd (createRelease example_client_v120 ''v1.2.0-rc.1'' example_body)
     = [Call (ListMilestonesCall 0),
        Call (CreateReleaseCall \<lparr>Name = ''v1.2.0-rc.1'', TagName = ''v1.2.0-rc.1'',
                                 Body = example_body, Prerelease = True, Draft = False\<rparr>)]
   \<and> changelog (sort_key IssueNumber) example_client_v120 ''syncthing'' ''syncthing''
       ''v1.2.0-rc.1'' False [''wontfix''] False
     = (Inr example_body,
        [Call (ListMilestonesCall 0), Call (ListByRepoCall ''1'' 0), Call (ListByRepoCall ''1'' 2)])
   \<and> getMilestone example_client_v120 ''v1.0.0''
     = (Inl (Error ''not found''), [Call (ListMilestonesCall 0)])
   \<and> changelog (sort_key IssueNumber) example_client_v120 ''syncthing'' ''syncthing''
       ''v1.0.0-rc.1'' False [''wontfix''] False
     = (Inl (Error ''getting milestone: not found''), [Call (ListMilestonesCall 0)])
   \<and> createRelease example_client_v120 ''v1.0.0-rc.1'' example_body
     = (Some (Error ''getting milestone: not found''), [Call (ListMilestonesCall 0)])"
proof -
  have p: "takeWhile (\<lambda>c. c \<noteq> CHR ''-'') ''v1.2.0-rc.1'' = ''v1.2.0''"
    and q: "takeWhile (\<lambda>c. c \<noteq> CHR ''-'') ''v1.0.0-rc.1'' = ''v1.0.0''"
    by simp_all
  have g: "getMilestone example_client_v120 ''v1.2.0''
           = (Inr example_stone_v120, [Call (ListMilestonesCall 0)])"
    by (rule example_getMilestone_v120)
  have m: "getMilestone example_client_v120 ''v1.0.0''
           = (Inl (Error ''not found''), [Call (ListMilestonesCall 0)])"
    by (rule example_getMilestone_v120_missing)
  have gp: "getMilestone example_client_v120 (takeWhile (\<lambda>c. c \<noteq> CHR ''-'') ''v1.2.0-rc.1'')
            = (Inr example_stone_v120, [Call (ListMilestonesCall 0)])"
    by (simp only: p g)
  have mq: "getMilestone example_client_v120 (takeWhile (\<lambda>c. c \<noteq> CHR ''-'') ''v1.0.0-rc.1'')
            = (Inl (Error ''not found''), [Call (ListMilestonesCall 0)])"
    by (simp only: q m)
  have n: "MilestoneNumber example_stone_v120 = 1"
    and d: "MilestoneDescription example_stone_v120 = MilestoneDescription example_stone"
    by (simp_all add: example_stone_v120_def example_stone_def)
  have c: "Repositories_CreateRelease example_client_v120 rel = None" for rel
    by (simp add: example_client_v120_def example_client_def)
  note t = release_milestone_title
             [of _ example_client_v120 "sort_key IssueNumber" "''syncthing''" "''syncthing''"
                 False "[''wontfix'']" False example_body]
  note found = t [of "''v1.2.0-rc.1''", THEN conjunct2, THEN conjunct2, THEN conjunct2,
                  THEN conjunct1, rule_format, OF gp]
  note names = t [of "''v1.2.0-rc.1''", THEN conjunct2, THEN conjunct2, THEN conjunct2,
                  THEN conjunct2, rule_format, OF g]
  note failed = t [of "''v1.0.0-rc.1''", THEN conjunct2, THEN conjunct2, THEN conjunct1,
                   rule_format, OF mq]
  from found have title: "MilestoneTitle example_stone_v120 = ''v1.2.0''"
    by (simp only: p)
  from names have final: "snd (createRelease example_client_v120 ''v1.2.0'' example_body)
     = [Call (ListMilestonesCall 0),
        Call (CreateReleaseCall \<lparr>Name = ''v1.2.0'', TagName = ''v1.2.0'', Body = example_body,
                                 Prerelease = False, Draft = False\<rparr>),
        Call (EditMilestoneCall 1 ''closed'')]"
    by (simp only: c n simp_thms if_True append.simps)
  from names have rc: "snd (createRelease example_client_v120 ''v1.2.0-rc.1'' example_body)
     = [Call (ListMilestonesCall 0),
        Call (CreateReleaseCall \<lparr>Name = ''v1.2.0-rc.1'', TagName = ''v1.2.0-rc.1'',
                                 Body = example_body, Prerelease = True, Draft = False\<rparr>)]"
    by (simp only: append.simps)
  have same: "changelog_text (sort_key IssueNumber) ''syncthing'' ''syncthing'' ''v1.2.0-rc.1''
                False [''wontfix''] False example_stone_v120 issues
              = changelog_text (sort_key IssueNumber) ''syncthing'' ''syncthing'' ''v1.2.0-rc.1''
                False [''wontfix''] False example_stone issues" for issues
    by (simp add: changelog_text_def d)
  from found have log: "changelog (sort_key IssueNumber) example_client_v120 ''syncthing'' ''syncthing''
       ''v1.2.0-rc.1'' False [''wontfix''] False
     = (Inr example_body,
        [Call (ListMilestonesCall 0), Call (ListByRepoCall ''1'' 0), Call (ListByRepoCall ''1'' 2)])"
    by (simp only: example_listIssues_v120 example_listIssues prod.case sum.case same
        example_changelog_text if_False append.simps)
  from failed have nolog: "changelog (sort_key IssueNumber) example_client_v120 ''syncthing'' ''syncthing''
       ''v1.0.0-rc.1'' False [''wontfix''] False
     = (Inl (Error ''getting milestone: not found''), [Call (ListMilestonesCall 0)])"
    and norel: "createRelease example_client_v120 ''v1.0.0-rc.1'' example_body
     = (Some (Error ''getting milestone: not found''), [Call (ListMilestonesCall 0)])"
    by simp_all
  from g title final rc log m nolog norel show ?thesis
    by (intro conjI)
qed

text \<open>
  Claim C5. The issues that survive the pull-request and skip-label filters are assigned
  by the first matching rule, in the order of the list: with the label \<open>bug\<close> to Bugfixes
  (also when \<open>enhancement\<close> is there too), otherwise with \<open>enhancement\<close> to Enhancements,
  otherwise to Other.
\<close>

theorem changelog_buckets_first_match:
  "changelog_buckets skipLabels ([], [], []) issues =
     (filter (\<lambda>i. \<not> excluded skipLabels i \<and> hasLabel ''bug'' i) issues,
      filter (\<lambda>i. \<not> excluded skipLabels i \<and> \<not> hasLabel ''bug'' i
                  \<and> hasLabel ''enhancement'' i) issues,
      filter (\<lambda>i. \<not> excluded skipLabels i \<and> \<not> hasLabel ''bug'' i
                  \<and> \<not> hasLabel ''enhancement'' i) issues)"
  using changelog_buckets_filter [of skipLabels "[]" "[]" "[]" issues] by simp

text \<open>Issues labelled \<open>{bug}\<close>, \<open>{enhancement}\<close>, \<open>{bug, enhancement}\<close> and \<open>{}\<close>.\<close>

theorem changelog_buckets_first_match_witness:
  "changelog_buckets []  ([], [], [])
     [example_issue 1 ''closed'' ''a'' [''bug''] False,
      example_issue 2 ''closed'' ''b'' [''enhancement''] False,
      example_issue 3 ''closed'' ''c'' [''bug'', ''enhancement''] False,
      example_issue 4 ''closed'' ''d'' [] False]
   = ([example_issue 1 ''closed'' ''a'' [''bug''] False,
       example_issue 3 ''closed'' ''c'' [''bug'', ''enhancement''] False],
      [example_issue 2 ''closed'' ''b'' [''enhancement''] False],
      [example_issue 4 ''closed'' ''d'' [] False])"
  unfolding changelog_buckets_first_match
  by (simp add: excluded_def hasLabel_def IsPullRequest_def example_issue_def)

text \<open>
  Claim C6. Whatever the fetched issues, the skip list and the order in which \<open>sort.Slice\<close>
  leaves the issues: a pull request, and an issue with a label of the skip list, is in
  none of the three buckets, and the rendered changelog is the text rendered when these
  issues are taken out of the sorted list before the buckets are filled. When no two
  fetched issues have the same number, it is also the changelog of the fetched list
  without these issues.
\<close>

theorem excluded_issue_not_rendered:
  "(\<forall>bugs enhancements other i.
      changelog_buckets skipLabels ([], [], []) (sortSlice issues) = (bugs, enhancements, other)
      \<and> (IsPullRequest i \<or> (\<exists>l \<in> set skipLabels. l \<in> LabelName ` set (IssueLabels i)))
      \<longrightarrow> i \<notin> set bugs \<and> i \<notin> set enhancements \<and> i \<notin> set other)
   \<and> changelog_text sortSlice owner repo release markdownLinks skipLabels withSubject stone issues
     = changelog_text
         (\<lambda>fetched. filter (\<lambda>i. \<not> (IsPullRequest i
                          \<or> (\<exists>l \<in> set skipLabels. l \<in> LabelName ` set (IssueLabels i))))
                       (sortSlice fetched))
         owner repo release markdownLinks skipLabels withSubject stone issues
   \<and> (sortsByNumber sortSlice \<and> distinct (map IssueNumber issues) \<longrightarrow>
      changelog_text sortSlice owner repo release markdownLinks skipLabels withSubject stone issues
      = changelog_text sortSlice owner repo release markdownLinks skipLabels withSubject stone
          (filter (\<lambda>i. \<not> (IsPullRequest i
                           \<or> (\<exists>l \<in> set skipLabels. l \<in> LabelName ` set (IssueLabels i)))) issues))"
proof -
  have ex: "(\<lambda>i. \<not> (IsPullRequest i \<or> (\<exists>l \<in> set skipLabels. l \<in> LabelName ` set (IssueLabels i))))
        = (\<lambda>i. \<not> excluded skipLabels i)"
    by (simp add: excluded_def hasLabel_def)
  have a: "i \<notin> set bugs \<and> i \<notin> set enhancements \<and> i \<notin> set other"
    if "changelog_buckets skipLabels ([], [], []) (sortSlice issues) = (bugs, enhancements, other)
        \<and> (IsPullRequest i \<or> (\<exists>l \<in> set skipLabels. l \<in> LabelName ` set (IssueLabels i)))"
    for bugs enhancements other i
  proof -
    from that
    have "changelog_buckets skipLabels ([], [], []) (sortSlice issues) = (bugs, enhancements, other)"
      and "excluded skipLabels i"
      by (simp_all add: excluded_def hasLabel_def)
    then show ?thesis
      by (rule excluded_in_no_bucket)
  qed
  have b: "changelog_text sortSlice owner repo release markdownLinks skipLabels withSubject stone issues
     = changelog_text
         (\<lambda>fetched. filter (\<lambda>i. \<not> (IsPullRequest i
                          \<or> (\<exists>l \<in> set skipLabels. l \<in> LabelName ` set (IssueLabels i))))
                       (sortSlice fetched))
         owner repo release markdownLinks skipLabels withSubject stone issues"
    unfolding ex by (simp add: changelog_text_def changelog_buckets_kept)
  have c: "changelog_text sortSlice owner repo release markdownLinks skipLabels withSubject stone issues
      = changelog_text sortSlice owner repo release markdownLinks skipLabels withSubject stone
          (filter (\<lambda>i. \<not> (IsPullRequest i
                           \<or> (\<exists>l \<in> set skipLabels. l \<in> LabelName ` set (IssueLabels i)))) issues)"
    if "sortsByNumber sortSlice \<and> distinct (map IssueNumber issues)"
  proof -
    from that have s: "sortsByNumber sortSlice" and d: "distinct (map IssueNumber issues)"
      by simp_all
    show ?thesis
      unfolding ex
      by (simp add: changelog_text_def sortsByNumber_filter [OF s d] changelog_buckets_kept)
  qed
  show ?thesis
  proof (intro conjI)
    show "\<forall>bugs enhancements other i.
      changelog_buckets skipLabels ([], [], []) (sortSlice issues) = (bugs, enhancements, other)
      \<and> (IsPullRequest i \<or> (\<exists>l \<in> set skipLabels. l \<in> LabelName ` set (IssueLabels i)))
      \<longrightarrow> i \<notin> set bugs \<and> i \<notin> set enhancements \<and> i \<notin> set other"
      by (intro allI impI) (rule a)
  qed (rule b, rule impI, rule c)
qed

theorem excluded_issue_not_rendered_witness:
  "changelog_buckets [''wontfix''] ([], [], [])
     (sort_key IssueNumber
        [example_listed 3 ''Typo'' [] False,
         example_listed 7 ''lib: fix crash'' [''bug''] True,
         example_listed 1 ''Crash on start'' [''bug''] False,
         example_listed 4 ''Old bug'' [''wontfix'', ''bug''] False,
         example_listed 2 ''Add flag'' [''enhancement''] False])
     = ([example_listed 1 ''Crash on start'' [''bug''] False],
        [example_listed 2 ''Add flag'' [''enhancement''] False],
        [example_listed 3 ''Typo'' [] False])
   \<and> IsPullRequest (example_listed 7 ''lib: fix crash'' [''bug''] True)
   \<and> ''wontfix'' \<in> LabelName ` set (IssueLabels (example_listed 4 ''Old bug'' [''wontfix'', ''bug''] False))
   \<and> example_listed 7 ''lib: fix crash'' [''bug''] True
        \<notin> set [example_listed 1 ''Crash on start'' [''bug''] False]
   \<and> example_listed 4 ''Old bug'' [''wontfix'', ''bug''] False
        \<notin> set [example_listed 1 ''Crash on start'' [''bug''] False]
   \<and> sortsByNumber (sort_key IssueNumber)
   \<and> distinct (map IssueNumber
        [example_listed 3 ''Typo'' [] False,
         example_listed 7 ''lib: fix crash'' [''bug''] True,
         example_listed 1 ''Crash on start'' [''bug''] False,
         example_listed 4 ''Old bug'' [''wontfix'', ''bug''] False,
         example_listed 2 ''Add flag'' [''enhancement''] False])
   \<and> changelog_text (sort_key IssueNumber) ''syncthing'' ''syncthing'' ''v1.0.0'' False
       [''wontfix''] False example_stone
       [example_listed 3 ''Typo'' [] False,
        example_listed 1 ''Crash on start'' [''bug''] False,
        example_listed 2 ''Add flag'' [''enhancement''] False]
     = example_body"
proof -
  let ?issues = "[example_listed 3 ''Typo'' [] False,
      example_listed 7 ''lib: fix crash'' [''bug''] True,
      example_listed 1 ''Crash on start'' [''bug''] False,
      example_listed 4 ''Old bug'' [''wontfix'', ''bug''] False,
      example_listed 2 ''Add flag'' [''enhancement''] False]"
  have b: "changelog_buckets [''wontfix''] ([], [], []) (sort_key IssueNumber ?issues)
           = ([example_listed 1 ''Crash on start'' [''bug''] False],
              [example_listed 2 ''Add flag'' [''enhancement''] False],
              [example_listed 3 ''Typo'' [] False])"
    by (simp only: example_sorted example_buckets)
  have p: "IsPullRequest (example_listed 7 ''lib: fix crash'' [''bug''] True)"
    by (simp add: example_listed_simps)
  have w: "''wontfix'' \<in> LabelName ` set (IssueLabels (example_listed 4 ''Old bug'' [''wontfix'', ''bug''] False))"
    by (simp add: example_listed_simps)
  have s: "sortsByNumber (sort_key IssueNumber)"
    by (rule sortsByNumber_sort_key)
  have d: "distinct (map IssueNumber ?issues)"
    by (simp add: example_listed_simps)
  note whole = excluded_issue_not_rendered
                 [of "[''wontfix'']" "sort_key IssueNumber" ?issues "''syncthing''" "''syncthing''"
                     "''v1.0.0''" False False example_stone]
  note t = whole [THEN conjunct1, rule_format]
  have "changelog_buckets [''wontfix''] ([], [], []) (sort_key IssueNumber ?issues)
           = ([example_listed 1 ''Crash on start'' [''bug''] False],
              [example_listed 2 ''Add flag'' [''enhancement''] False],
              [example_listed 3 ''Typo'' [] False])
        \<and> (IsPullRequest (example_listed 7 ''lib: fix crash'' [''bug''] True)
           \<or> (\<exists>l \<in> set [''wontfix'']. l \<in> LabelName ` set (IssueLabels (example_listed 7 ''lib: fix crash'' [''bug''] True))))"
    using b p by (intro conjI disjI1)
  from t [OF this]
  have a: "example_listed 7 ''lib: fix crash'' [''bug''] True
        \<notin> set [example_listed 1 ''Crash on start'' [''bug''] False]"
    by (rule conjunct1)
  have "\<exists>l \<in> set [''wontfix'']. l \<in> LabelName ` set (IssueLabels (example_listed 4 ''Old bug'' [''wontfix'', ''bug''] False))"
    using w by simp
  with b have "changelog_buckets [''wontfix''] ([], [], []) (sort_key IssueNumber ?issues)
           = ([example_listed 1 ''Crash on start'' [''bug''] False],
              [example_listed 2 ''Add flag'' [''enhancement''] False],
              [example_listed 3 ''Typo'' [] False])
        \<and> (IsPullRequest (example_listed 4 ''Old bug'' [''wontfix'', ''bug''] False)
           \<or> (\<exists>l \<in> set [''wontfix'']. l \<in> LabelName ` set (IssueLabels (example_listed 4 ''Old bug'' [''wontfix'', ''bug''] False))))"
    by (intro conjI disjI2)
  from t [OF this]
  have c: "example_listed 4 ''Old bug'' [''wontfix'', ''bug''] False
        \<notin> set [example_listed 1 ''Crash on start'' [''bug''] False]"
    by (rule conjunct1)
  have f: "filter (\<lambda>i. \<not> (IsPullRequest i
                           \<or> (\<exists>l \<in> set [''wontfix'']. l \<in> LabelName ` set (IssueLabels i)))) ?issues
           = [example_listed 3 ''Typo'' [] False,
              example_listed 1 ''Crash on start'' [''bug''] False,
              example_listed 2 ''Add flag'' [''enhancement''] False]"
    by (simp add: example_listed_simps)
  from s d have "sortsByNumber (sort_key IssueNumber) \<and> distinct (map IssueNumber ?issues)"
    by (rule conjI)
  from whole [THEN conjunct2, THEN conjunct2, rule_format, OF this]
  have e: "changelog_text (sort_key IssueNumber) ''syncthing'' ''syncthing'' ''v1.0.0'' False
       [''wontfix''] False example_stone
       [example_listed 3 ''Typo'' [] False,
        example_listed 1 ''Crash on start'' [''bug''] False,
        example_listed 2 ''Add flag'' [''enhancement''] False]
     = example_body"
    unfolding f example_changelog_text by simp
  from b p w a c s d e show ?thesis by (intro conjI)
qed

lemma changelog_text_heading:
  "changelog_text sortSlice owner repo release markdownLinks skipLabels True stone issues
   = (if markdownLinks
      then ''# ['' @ release @ ''](https://github.com/'' @ owner @ ''/'' @ repo
           @ ''/releases/'' @ release @ '')'' @ [CHR 0x0A, CHR 0x0A]
      else release @ [CHR 0x0A, CHR 0x0A])
     @ changelog_text sortSlice owner repo release markdownLinks skipLabels False stone issues"
  by (simp add: changelog_text_def split: prod.splits)

text \<open>A service that no longer answers when the milestones are listed.\<close>

definition example_client_down :: client where
  "example_client_down
   = example_client\<lparr>Issues_ListMilestones := [Inl (Error ''503 Service Unavailable'')]\<rparr>"

lemma example_getMilestone_down:
  "getMilestone example_client_down name
   = (Inl (Error ''503 Service Unavailable''), [Call (ListMilestonesCall 0)])"
  by (simp add: getMilestone_def getMilestone_pages.simps listPage_def example_client_down_def)

text \<open>
  Claim C7. The release publisher renders the changelog without its heading: the text is
  the one \<open>changelog\<close> yields with \<open>withSubject\<close> and the markdown links off. When that
  succeeds, \<open>createRelease\<close> looks the milestone up with a request of its own. If this
  lookup succeeds too, the publisher sends exactly one request that creates a release;
  name and tag of the release are the release name, the body is the rendered changelog,
  the draft flag is false and the prerelease flag says whether the name differs from the
  milestone title. The one other mutating request, sent once the release is accepted,
  closes the milestone that this lookup found, and it is sent if and only if the release is
  not a prerelease. If the lookup of \<open>createRelease\<close> fails, its error is returned and
  nothing is sent; when the changelog fails, its error is returned and nothing is sent.
\<close>

theorem release_publisher:
  "(\<forall>body t0.
      changelog sortSlice client owner repo release False skipLabels False = (Inr body, t0) \<longrightarrow>
      (\<forall>stone t1.
          getMilestone client' (hd (SplitN release CHR ''-'' 2)) = (Inr stone, t1) \<longrightarrow>
          filter mutation
            (snd (releaseOptions_Run sortSlice client client' owner repo release skipLabels))
            = Call (CreateReleaseCall
                      \<lparr>Name = release, TagName = release, Body = body,
                       Prerelease = (release \<noteq> hd (SplitN release CHR ''-'' 2)),
                       Draft = False\<rparr>)
              # (if Repositories_CreateRelease client'
                      \<lparr>Name = release, TagName = release, Body = body,
                       Prerelease = (release \<noteq> hd (SplitN release CHR ''-'' 2)),
                       Draft = False\<rparr> = None
                    \<and> release = hd (SplitN release CHR ''-'' 2)
                 then [Call (EditMilestoneCall (MilestoneNumber stone) ''closed'')]
                 else []))
      \<and> (\<forall>err t1.
          getMilestone client' (hd (SplitN release CHR ''-'' 2)) = (Inl err, t1) \<longrightarrow>
          releaseOptions_Run sortSlice client client' owner repo release skipLabels
            = (Some (Error (''getting milestone: '' @ errorString err)), t0 @ t1)
          \<and> filter mutation (t0 @ t1) = []))
   \<and> (\<forall>err t0.
      changelog sortSlice client owner repo release False skipLabels False = (Inl err, t0) \<longrightarrow>
      releaseOptions_Run sortSlice client client' owner repo release skipLabels = (Some err, t0)
      \<and> filter mutation t0 = [])"
proof (intro conjI allI impI)
  fix body t0 stone t1
  assume c: "changelog sortSlice client owner repo release False skipLabels False = (Inr body, t0)"
    and g: "getMilestone client' (hd (SplitN release CHR ''-'' 2)) = (Inr stone, t1)"
  have t0: "filter mutation t0 = []"
    using changelog_no_mutation [of sortSlice client owner repo release False skipLabels False] c
    by simp
  have "snd (releaseOptions_Run sortSlice client client' owner repo release skipLabels)
        = t0 @ snd (createRelease client' release body)"
    by (simp add: releaseOptions_Run_def c split: prod.splits)
  then have "filter mutation
               (snd (releaseOptions_Run sortSlice client client' owner repo release skipLabels))
        = filter mutation (snd (createRelease client' release body))"
    by (simp add: t0)
  then show "filter mutation
            (snd (releaseOptions_Run sortSlice client client' owner repo release skipLabels))
            = Call (CreateReleaseCall
                      \<lparr>Name = release, TagName = release, Body = body,
                       Prerelease = (release \<noteq> hd (SplitN release CHR ''-'' 2)),
                       Draft = False\<rparr>)
              # (if Repositories_CreateRelease client'
                      \<lparr>Name = release, TagName = release, Body = body,
                       Prerelease = (release \<noteq> hd (SplitN release CHR ''-'' 2)),
                       Draft = False\<rparr> = None
                    \<and> release = hd (SplitN release CHR ''-'' 2)
                 then [Call (EditMilestoneCall (MilestoneNumber stone) ''closed'')]
                 else [])"
    by (simp only: createRelease_mutations [OF g, of body])
next
  fix body t0 err t1
  assume c: "changelog sortSlice client owner repo release False skipLabels False = (Inr body, t0)"
    and g: "getMilestone client' (hd (SplitN release CHR ''-'' 2)) = (Inl err, t1)"
  have "createRelease client' release body
        = (Some (Error (''getting milestone: '' @ errorString err)), t1)"
    using g by (simp add: createRelease_def)
  then show "releaseOptions_Run sortSlice client client' owner repo release skipLabels
            = (Some (Error (''getting milestone: '' @ errorString err)), t0 @ t1)"
    by (simp add: releaseOptions_Run_def c)
  have "filter mutation t0 = []"
    using changelog_no_mutation [of sortSlice client owner repo release False skipLabels False] c
    by simp
  moreover have "filter mutation t1 = []"
    using getMilestone_no_mutation [of client' "hd (SplitN release CHR ''-'' 2)"] g by simp
  ultimately show "filter mutation (t0 @ t1) = []"
    by simp
next
  fix err t0
  assume c: "changelog sortSlice client owner repo release False skipLabels False = (Inl err, t0)"
  then show "releaseOptions_Run sortSlice client client' owner repo release skipLabels = (Some err, t0)"
    by (simp add: releaseOptions_Run_def)
  show "filter mutation t0 = []"
    using changelog_no_mutation [of sortSlice client owner repo release False skipLabels False] c
    by simp
qed

theorem release_publisher_witness:
  "changelog (sort_key IssueNumber) example_client ''syncthing'' ''syncthing'' ''v1.0.0'' False
       [''wontfix''] False
     = (Inr example_body,
        [Call (ListMilestonesCall 0), Call (ListByRepoCall ''1'' 0), Call (ListByRepoCall ''1'' 2)])
   \<and> getMilestone example_client (hd (SplitN ''v1.0.0'' CHR ''-'' 2))
     = (Inr example_stone, [Call (ListMilestonesCall 0)])
   \<and> filter mutation
       (snd (releaseOptions_Run (sort_key IssueNumber) example_client example_client
               ''syncthing'' ''syncthing'' ''v1.0.0'' [''wontfix'']))
     = [Call (CreateReleaseCall
                \<lparr>Name = ''v1.0.0'', TagName = ''v1.0.0'', Body = example_body,
                 Prerelease = False, Draft = False\<rparr>),
        Call (EditMilestoneCall 1 ''closed'')]
   \<and> getMilestone example_client_down (hd (SplitN ''v1.0.0'' CHR ''-'' 2))
     = (Inl (Error ''503 Service Unavailable''), [Call (ListMilestonesCall 0)])
   \<and> releaseOptions_Run (sort_key IssueNumber) example_client example_client_down
       ''syncthing'' ''syncthing'' ''v1.0.0'' [''wontfix'']
     = (Some (Error ''getting milestone: 503 Service Unavailable''),
        [Call (ListMilestonesCall 0), Call (ListByRepoCall ''1'' 0), Call (ListByRepoCall ''1'' 2),
         Call (ListMilestonesCall 0)])
   \<and> changelog (sort_key IssueNumber) example_client ''syncthing'' ''syncthing'' ''v1.1.0'' False
       [''wontfix''] False
     = (Inl (Error ''getting milestone: not found''), [Call (ListMilestonesCall 0)])
   \<and> releaseOptions_Run (sort_key IssueNumber) example_client example_client
       ''syncthing'' ''syncthing'' ''v1.1.0'' [''wontfix'']
     = (Some (Error ''getting milestone: not found''), [Call (ListMilestonesCall 0)])"
proof -
  have c: "changelog (sort_key IssueNumber) example_client ''syncthing'' ''syncthing'' ''v1.0.0'' False
       [''wontfix''] False
     = (Inr example_body,
        [Call (ListMilestonesCall 0), Call (ListByRepoCall ''1'' 0), Call (ListByRepoCall ''1'' 2)])"
    using example_changelog [of "''syncthing''" "''syncthing''" False] by simp
  have m0: "hd (SplitN ''v1.0.0'' CHR ''-'' 2) = ''v1.0.0''"
    and m1: "hd (SplitN ''v1.1.0'' CHR ''-'' 2) = ''v1.1.0''"
    by (simp_all add: hd_SplitN_2)
  have g: "getMilestone example_client (hd (SplitN ''v1.0.0'' CHR ''-'' 2))
           = (Inr example_stone, [Call (ListMilestonesCall 0)])"
    unfolding m0 by (rule example_getMilestone)
  have d: "getMilestone example_client_down (hd (SplitN ''v1.0.0'' CHR ''-'' 2))
           = (Inl (Error ''503 Service Unavailable''), [Call (ListMilestonesCall 0)])"
    by (rule example_getMilestone_down)
  have f: "changelog (sort_key IssueNumber) example_client ''syncthing'' ''syncthing'' ''v1.1.0'' False
       [''wontfix''] False
     = (Inl (Error ''getting milestone: not found''), [Call (ListMilestonesCall 0)])"
    unfolding changelog_def Let_def m1 example_getMilestone_missing by simp
  have r: "Repositories_CreateRelease example_client rel = None" for rel
    by (simp add: example_client_def)
  have n: "MilestoneNumber example_stone = 1"
    by (simp add: example_stone_def)
  note t = release_publisher [of "sort_key IssueNumber" example_client "''syncthing''" "''syncthing''"
                                 _ "[''wontfix'']"]
  from t [of "''v1.0.0''" example_client, THEN conjunct1, rule_format, OF c, THEN conjunct1,
          rule_format, OF g]
  have a: "filter mutation
       (snd (releaseOptions_Run (sort_key IssueNumber) example_client example_client
               ''syncthing'' ''syncthing'' ''v1.0.0'' [''wontfix'']))
     = [Call (CreateReleaseCall
                \<lparr>Name = ''v1.0.0'', TagName = ''v1.0.0'', Body = example_body,
                 Prerelease = False, Draft = False\<rparr>),
        Call (EditMilestoneCall 1 ''closed'')]"
    by (simp only: m0 r n simp_thms if_True)
  from t [of "''v1.0.0''" example_client_down, THEN conjunct1, rule_format, OF c, THEN conjunct2,
          rule_format, OF d]
  have b: "releaseOptions_Run (sort_key IssueNumber) example_client example_client_down
       ''syncthing'' ''syncthing'' ''v1.0.0'' [''wontfix'']
     = (Some (Error ''getting milestone: 503 Service Unavailable''),
        [Call (ListMilestonesCall 0), Call (ListByRepoCall ''1'' 0), Call (ListByRepoCall ''1'' 2),
         Call (ListMilestonesCall 0)])"
    by simp
  from t [of "''v1.1.0''" example_client, THEN conjunct2, rule_format, OF f]
  have e: "releaseOptions_Run (sort_key IssueNumber) example_client example_client
       ''syncthing'' ''syncthing'' ''v1.1.0'' [''wontfix'']
     = (Some (Error ''getting milestone: not found''), [Call (ListMilestonesCall 0)])"
    by (rule conjunct1)
  from c g a d b f e show ?thesis by (intro conjI)
qed

text \<open>
  Claim C9. A changelog rendered with its heading begins with the release argument as it
  was given, in markdown mode also as the last segment of the link, followed by the
  changelog without heading of the milestone whose title is the part of the argument before
  the first \<open>-\<close>. So for a release name with a \<open>-\<close> the heading differs from the title of
  the milestone whose issues are listed.
\<close>

theorem changelog_heading_is_release:
  "\<forall>out t.
     changelog sortSlice client owner repo release markdownLinks skipLabels True = (Inr out, t) \<longrightarrow>
     (\<exists>stone t0 issues t1.
        getMilestone client (takeWhile (\<lambda>c. c \<noteq> CHR ''-'') release) = (Inr stone, t0)
        \<and> listIssues_pages client (Itoa (MilestoneNumber stone)) 0 = (Inr issues, t1)
        \<and> MilestoneTitle stone = takeWhile (\<lambda>c. c \<noteq> CHR ''-'') release
        \<and> out = (if markdownLinks
                  then ''# ['' @ release @ ''](https://github.com/'' @ owner @ ''/'' @ repo
                       @ ''/releases/'' @ release @ '')'' @ [CHR 0x0A, CHR 0x0A]
                  else release @ [CHR 0x0A, CHR 0x0A])
                 @ changelog_text sortSlice owner repo release markdownLinks skipLabels False stone issues
        \<and> (CHR ''-'' \<in> set release \<longrightarrow> release \<noteq> MilestoneTitle stone))"
proof (intro allI impI)
  fix out t
  assume c: "changelog sortSlice client owner repo release markdownLinks skipLabels True = (Inr out, t)"
  from c obtain stone t0 issues t1 where
    g: "getMilestone client (hd (SplitN release CHR ''-'' 2)) = (Inr stone, t0)"
    and l: "listIssues_pages client (Itoa (MilestoneNumber stone)) 0 = (Inr issues, t1)"
    and o: "out = changelog_text sortSlice owner repo release markdownLinks skipLabels True stone issues"
    by (cases rule: changelog_cases [of client release sortSlice owner repo markdownLinks skipLabels True]) auto
  from g have g': "getMilestone client (takeWhile (\<lambda>c. c \<noteq> CHR ''-'') release) = (Inr stone, t0)"
    by (simp only: hd_SplitN_2)
  then have title: "MilestoneTitle stone = takeWhile (\<lambda>c. c \<noteq> CHR ''-'') release"
    by (rule getMilestone_title)
  have diff: "CHR ''-'' \<in> set release \<longrightarrow> release \<noteq> MilestoneTitle stone"
  proof (intro impI notI)
    assume a: "CHR ''-'' \<in> set release" and b: "release = MilestoneTitle stone"
    have "takeWhile (\<lambda>c. c \<noteq> CHR ''-'') release = release"
      by (rule trans [OF title [symmetric] b [symmetric]])
    then have "CHR ''-'' \<notin> set release"
      by (rule title_eq_release [THEN iffD1])
    from this a show False
      by (rule notE)
  qed
  from g' l title diff o show "\<exists>stone t0 issues t1.
        getMilestone client (takeWhile (\<lambda>c. c \<noteq> CHR ''-'') release) = (Inr stone, t0)
        \<and> listIssues_pages client (Itoa (MilestoneNumber stone)) 0 = (Inr issues, t1)
        \<and> MilestoneTitle stone = takeWhile (\<lambda>c. c \<noteq> CHR ''-'') release
        \<and> out = (if markdownLinks
                  then ''# ['' @ release @ ''](https://github.com/'' @ owner @ ''/'' @ repo
                       @ ''/releases/'' @ release @ '')'' @ [CHR 0x0A, CHR 0x0A]
                  else release @ [CHR 0x0A, CHR 0x0A])
                 @ changelog_text sortSlice owner repo release markdownLinks skipLabels False stone issues
        \<and> (CHR ''-'' \<in> set release \<longrightarrow> release \<noteq> MilestoneTitle stone)"
    unfolding changelog_text_heading by blast
qed

theorem changelog_heading_is_release_witness:
  "changelog (sort_key IssueNumber) example_client ''syncthing'' ''syncthing'' ''v1.0.0-rc.1'' False [''wontfix''] True
     = (Inr (''v1.0.0-rc.1'' @ [CHR 0x0A, CHR 0x0A] @ example_body),
        [Call (ListMilestonesCall 0), Call (ListByRepoCall ''1'' 0), Call (ListByRepoCall ''1'' 2)])
   \<and> CHR ''-'' \<in> set ''v1.0.0-rc.1''
   \<and> (\<exists>stone t0.
        getMilestone example_client (takeWhile (\<lambda>c. c \<noteq> CHR ''-'') ''v1.0.0-rc.1'') = (Inr stone, t0)
        \<and> MilestoneTitle stone = ''v1.0.0''
        \<and> ''v1.0.0-rc.1'' \<noteq> MilestoneTitle stone)"
proof -
  have c: "changelog (sort_key IssueNumber) example_client ''syncthing'' ''syncthing'' ''v1.0.0-rc.1'' False [''wontfix''] True
     = (Inr (''v1.0.0-rc.1'' @ [CHR 0x0A, CHR 0x0A] @ example_body),
        [Call (ListMilestonesCall 0), Call (ListByRepoCall ''1'' 0), Call (ListByRepoCall ''1'' 2)])"
    using example_changelog_rc [of "''syncthing''" "''syncthing''" True] by simp
  have d: "CHR ''-'' \<in> set ''v1.0.0-rc.1''" by simp
  have e: "takeWhile (\<lambda>c. c \<noteq> CHR ''-'') ''v1.0.0-rc.1'' = ''v1.0.0''" by simp
  from changelog_heading_is_release
         [of "sort_key IssueNumber" example_client "''syncthing''" "''syncthing''" "''v1.0.0-rc.1''" False "[''wontfix'']",
          rule_format, OF c]
  obtain stone t0 issues t1 where
    g: "getMilestone example_client (takeWhile (\<lambda>c. c \<noteq> CHR ''-'') ''v1.0.0-rc.1'') = (Inr stone, t0)
        \<and> listIssues_pages example_client (Itoa (MilestoneNumber stone)) 0 = (Inr issues, t1)
        \<and> MilestoneTitle stone = takeWhile (\<lambda>c. c \<noteq> CHR ''-'') ''v1.0.0-rc.1''
        \<and> ''v1.0.0-rc.1'' @ [CHR 0x0A, CHR 0x0A] @ example_body
           = (if False
                  then ''# ['' @ ''v1.0.0-rc.1'' @ ''](https://github.com/'' @ ''syncthing'' @ ''/'' @ ''syncthing''
                       @ ''/releases/'' @ ''v1.0.0-rc.1'' @ '')'' @ [CHR 0x0A, CHR 0x0A]
                  else ''v1.0.0-rc.1'' @ [CHR 0x0A, CHR 0x0A])
                 @ changelog_text (sort_key IssueNumber) ''syncthing'' ''syncthing'' ''v1.0.0-rc.1'' False [''wontfix''] False stone issues
        \<and> (CHR ''-'' \<in> set ''v1.0.0-rc.1'' \<longrightarrow> ''v1.0.0-rc.1'' \<noteq> MilestoneTitle stone)"
    by (elim exE)
  from g have g1: "getMilestone example_client (takeWhile (\<lambda>c. c \<noteq> CHR ''-'') ''v1.0.0-rc.1'') = (Inr stone, t0)"
    by (rule conjunct1)
  from g have "MilestoneTitle stone = takeWhile (\<lambda>c. c \<noteq> CHR ''-'') ''v1.0.0-rc.1''"
    by (elim conjE)
  then have g2: "MilestoneTitle stone = ''v1.0.0''"
    by (simp only: e)
  from g have "CHR ''-'' \<in> set ''v1.0.0-rc.1'' \<longrightarrow> ''v1.0.0-rc.1'' \<noteq> MilestoneTitle stone"
    by (elim conjE)
  with d have g3: "''v1.0.0-rc.1'' \<noteq> MilestoneTitle stone"
    by (rule rev_mp)
  from g1 g2 g3 have "\<exists>stone t0.
        getMilestone example_client (takeWhile (\<lambda>c. c \<noteq> CHR ''-'') ''v1.0.0-rc.1'') = (Inr stone, t0)
        \<and> MilestoneTitle stone = ''v1.0.0''
        \<and> ''v1.0.0-rc.1'' \<noteq> MilestoneTitle stone"
    by (intro exI conjI)
  with c d show ?thesis by (intro conjI)
qed

subsection \<open>White space on bytes\<close>

text \<open>
  The bytes that occur behind the first byte of a white-space encoding; none of them is
  the first byte of one.
\<close>

definition trailByte :: "char \<Rightarrow> bool" where
  "trailByte c = (c \<in> set
     [CHR 0x85, CHR 0xA0, CHR 0x9A, CHR 0x80, CHR 0x81, CHR 0x82, CHR 0x83, CHR 0x84,
      CHR 0x86, CHR 0x87, CHR 0x88, CHR 0x89, CHR 0x8A, CHR 0xA8, CHR 0xA9, CHR 0xAF,
      CHR 0x9F])"

lemma space2_Cons2: "space2 (a # b # s) = space2 (a # b # t)"
  by (simp add: space2_def)

lemma space3_Cons3: "space3 (a # b # c # s) = space3 (a # b # c # t)"
  by (simp add: space3_def)

lemma space2_short: "\<not> space2 []" "\<not> space2 [a]"
  by (simp_all add: space2_def)

lemma space3_short: "\<not> space3 []" "\<not> space3 [a]" "\<not> space3 [a, b]"
  by (simp_all add: space3_def)

lemma space2_trail: "space2 (a # b # s) \<Longrightarrow> trailByte b"
  by (auto simp: space2_def trailByte_def)

lemma space3_trail: "space3 (a # b # c # s) \<Longrightarrow> trailByte b \<and> trailByte c"
  by (auto simp: space3_def trailByte_def)

lemma space2_lead: "space2 (a # s) \<Longrightarrow> \<not> trailByte a"
  by (auto simp: space2_def trailByte_def take_Cons' split: if_splits)

lemma space3_lead: "space3 (a # s) \<Longrightarrow> \<not> trailByte a"
  by (auto simp: space3_def trailByte_def take_Cons' split: if_splits)

lemma asciiSpace_lead: "asciiSpace a \<Longrightarrow> \<not> trailByte a"
  by (auto simp: asciiSpace_def trailByte_def)

lemma spaceWidth_Nil [simp]: "spaceWidth [] = 0"
  by (simp add: spaceWidth_def space2_short space3_short)

lemma spaceWidth_lead: "0 < spaceWidth s \<Longrightarrow> s \<noteq> [] \<and> \<not> trailByte (hd s)"
  by (cases s)
    (auto simp: spaceWidth_def space2_short space3_short split: if_splits
          dest: asciiSpace_lead space2_lead space3_lead)

lemma spaceWidth_space [simp]: "spaceWidth (CHR '' '' # s) = 1"
  by (simp add: spaceWidth_def asciiSpace_def)


lemma not_space2_trail: "\<not> trailByte b \<Longrightarrow> \<not> space2 (a # b # s)"
  using space2_trail by blast

lemma not_space3_trail2: "\<not> trailByte b \<Longrightarrow> \<not> space3 (a # b # c # s)"
  using space3_trail by blast

lemma not_space3_trail3: "\<not> trailByte c \<Longrightarrow> \<not> space3 (a # b # c # s)"
  using space3_trail by blast

text \<open>
  What follows a non-empty string does not change whether it begins with white space,
  unless it begins with a trailing byte.
\<close>

lemma space2_append:
  assumes "u \<noteq> []" and "y = [] \<or> \<not> trailByte (hd y)"
  shows "space2 (u @ y) = space2 u"
proof (cases u)
  case Nil
  with assms show ?thesis by simp
next
  case u1: (Cons a u')
  show ?thesis
  proof (cases u')
    case u2: Nil
    show ?thesis
    proof (cases y)
      case Nil
      then show ?thesis by simp
    next
      case (Cons b y')
      with assms have "\<not> trailByte b" by simp
      then have "\<not> space2 (a # b # y')" by (rule not_space2_trail)
      then show ?thesis unfolding u1 u2 Cons by (simp add: space2_short)
    qed
  next
    case (Cons b v)
    show ?thesis unfolding u1 Cons append_Cons by (rule space2_Cons2)
  qed
qed

lemma space3_append:
  assumes "u \<noteq> []" and "y = [] \<or> \<not> trailByte (hd y)"
  shows "space3 (u @ y) = space3 u"
proof (cases u)
  case Nil
  with assms show ?thesis by simp
next
  case u1: (Cons a u')
  show ?thesis
  proof (cases u')
    case u2: Nil
    show ?thesis
    proof (cases y)
      case Nil
      then show ?thesis by simp
    next
      case y1: (Cons b y')
      with assms have nb: "\<not> trailByte b" by simp
      show ?thesis
      proof (cases y')
        case Nil
        show ?thesis unfolding u1 u2 y1 Nil by (simp add: space3_short)
      next
        case (Cons c z)
        have "\<not> space3 (a # b # c # z)" using nb by (rule not_space3_trail2)
        then show ?thesis unfolding u1 u2 y1 Cons by (simp add: space3_short)
      qed
    qed
  next
    case u2: (Cons b v)
    show ?thesis
    proof (cases v)
      case u3: Nil
      show ?thesis
      proof (cases y)
        case Nil
        then show ?thesis by simp
      next
        case (Cons c y')
        with assms have "\<not> trailByte c" by simp
        then have "\<not> space3 (a # b # c # y')" by (rule not_space3_trail3)
        then show ?thesis unfolding u1 u2 u3 Cons by (simp add: space3_short)
      qed
    next
      case (Cons c z)
      show ?thesis unfolding u1 u2 Cons append_Cons by (rule space3_Cons3)
    qed
  qed
qed

lemma spaceWidth_append:
  assumes "u \<noteq> []" and "y = [] \<or> \<not> trailByte (hd y)"
  shows "spaceWidth (u @ y) = spaceWidth u"
proof -
  from assms(1) have "hd (u @ y) = hd u" "u @ y \<noteq> []" by simp_all
  then show ?thesis
    unfolding spaceWidth_def
    by (simp only: space2_append [OF assms] space3_append [OF assms] assms(1))
qed

text \<open>A white-space encoding stays one whatever follows it.\<close>

lemma spaceWidth_take:
  assumes "0 < spaceWidth s"
  shows "spaceWidth (take (spaceWidth s) s @ t) = spaceWidth s"
proof (cases s)
  case Nil
  with assms show ?thesis by simp
next
  case s1: (Cons a s')
  show ?thesis
  proof (cases "asciiSpace a")
    case True
    with s1 show ?thesis by (simp add: spaceWidth_def)
  next
    case na: False
    show ?thesis
    proof (cases "space2 s")
      case True
      then have "2 \<le> length s" by (rule space2_length)
      with s1 obtain b v where s2: "s' = b # v" by (cases s') auto
      from True na s1 have w: "spaceWidth s = 2" by (simp add: spaceWidth_def)
      from True have "space2 (a # b # t)" unfolding s1 s2 using space2_Cons2 [of a b v t] by blast
      with na have "spaceWidth (a # b # t) = 2" by (simp add: spaceWidth_def)
      then show ?thesis unfolding w unfolding s1 s2 by simp
    next
      case n2: False
      with assms na s1 have t3: "space3 s" by (simp add: spaceWidth_def split: if_splits)
      then have "3 \<le> length s" by (rule space3_length)
      with s1 obtain b c v where s3: "s' = b # c # v"
        by (cases s'; cases "tl s'") auto
      from t3 n2 na s1 have w: "spaceWidth s = 3" by (simp add: spaceWidth_def)
      from t3 have a3: "space3 (a # b # c # t)" unfolding s1 s3 using space3_Cons3 [of a b c v t] by blast
      from n2 have a2: "\<not> space2 (a # b # c # t)" unfolding s1 s3 using space2_Cons2 [of a b "c # v" "c # t"] by blast
      from na a2 a3 have "spaceWidth (a # b # c # t) = 3" by (simp add: spaceWidth_def)
      then show ?thesis unfolding w unfolding s1 s3 by simp
    qed
  qed
qed

subsection \<open>Words\<close>

lemma Fields_space: "0 < spaceWidth s \<Longrightarrow> Fields s = Fields (drop (spaceWidth s) s)"
  by (cases s) (simp_all add: Fields.simps(2))

lemma Fields_word:
  "s \<noteq> [] \<Longrightarrow> spaceWidth s = 0 \<Longrightarrow> Fields s = takeWord s # Fields (dropWord s)"
  by (cases s) (simp_all add: Fields.simps(2))

lemma skipSpace_space: "0 < spaceWidth s \<Longrightarrow> skipSpace s = skipSpace (drop (spaceWidth s) s)"
  by (subst skipSpace.simps) simp

lemma skipSpace_word: "spaceWidth s = 0 \<Longrightarrow> skipSpace s = s"
  by (subst skipSpace.simps) simp

lemma Fields_skipSpace: "Fields (skipSpace s) = Fields s"
proof (induction s rule: skipSpace.induct)
  case (1 s)
  show ?case
  proof (cases "0 < spaceWidth s")
    case True
    with 1 show ?thesis by (simp add: skipSpace_space Fields_space)
  next
    case False
    then show ?thesis by (simp add: skipSpace_word)
  qed
qed

lemma length_skipSpace: "length (skipSpace s) \<le> length s"
proof (induction s rule: skipSpace.induct)
  case (1 s)
  show ?case
  proof (cases "0 < spaceWidth s")
    case True
    with 1 have "length (skipSpace (drop (spaceWidth s) s)) \<le> length (drop (spaceWidth s) s)"
      by simp
    with True show ?thesis by (simp add: skipSpace_space)
  next
    case False
    then show ?thesis by (simp add: skipSpace_word)
  qed
qed

lemma length_skipSpace_less: "0 < spaceWidth s \<Longrightarrow> length (skipSpace s) < length s"
proof -
  assume a: "0 < spaceWidth s"
  have "length (skipSpace (drop (spaceWidth s) s)) \<le> length (drop (spaceWidth s) s)"
    by (rule length_skipSpace)
  moreover have "spaceWidth s \<le> length s" by (rule spaceWidth_le_length)
  ultimately show ?thesis using a by (simp add: skipSpace_space)
qed

lemma skipSpace_start: "skipSpace s = [] \<or> spaceWidth (skipSpace s) = 0"
proof (induction s rule: skipSpace.induct)
  case (1 s)
  show ?case
  proof (cases "0 < spaceWidth s")
    case True
    with 1 show ?thesis by (simp add: skipSpace_space)
  next
    case False
    then show ?thesis by (simp add: skipSpace_word)
  qed
qed

lemma takeWord_dropWord: "takeWord s @ dropWord s = s"
  by (induction s) auto

lemma dropWord_start: "dropWord s = [] \<or> 0 < spaceWidth (dropWord s)"
  by (induction s) auto

lemma takeWord_nonempty: "s \<noteq> [] \<Longrightarrow> spaceWidth s = 0 \<Longrightarrow> takeWord s \<noteq> []"
  by (cases s) auto

lemma start_no_trail: "y = [] \<or> 0 < spaceWidth y \<Longrightarrow> y = [] \<or> \<not> trailByte (hd y)"
  using spaceWidth_lead by blast

text \<open>A string in which no white-space character begins.\<close>

fun wordlike :: "string \<Rightarrow> bool" where
  "wordlike [] = True"
| "wordlike (c # cs) = (spaceWidth (c # cs) = 0 \<and> wordlike cs)"

lemma wordlike_takeWord: "wordlike (takeWord s)"
proof (induction s)
  case Nil
  show ?case by simp
next
  case (Cons c cs)
  show ?case
  proof (cases "0 < spaceWidth (c # cs)")
    case True
    then show ?thesis by simp
  next
    case False
    have "spaceWidth ((c # takeWord cs) @ dropWord cs) = spaceWidth (c # takeWord cs)"
      by (rule spaceWidth_append) (simp, rule start_no_trail, rule dropWord_start)
    then have "spaceWidth (c # takeWord cs) = spaceWidth (c # cs)"
      by (simp add: takeWord_dropWord)
    with False Cons show ?thesis by simp
  qed
qed


lemma takeWord_append:
  assumes "wordlike w" and "y = [] \<or> 0 < spaceWidth y"
  shows "takeWord (w @ y) = w \<and> dropWord (w @ y) = y"
  using assms(1)
proof (induction w)
  case Nil
  from assms(2) show ?case by (cases y) auto
next
  case (Cons a w)
  have "spaceWidth ((a # w) @ y) = spaceWidth (a # w)"
    by (rule spaceWidth_append) (simp, rule start_no_trail, rule assms(2))
  with Cons show ?case by simp
qed

lemma Fields_append_word:
  assumes "wordlike w" and "w \<noteq> []" and "y = [] \<or> 0 < spaceWidth y"
  shows "Fields (w @ y) = w # Fields y"
proof -
  have "spaceWidth (w @ y) = spaceWidth w"
    using assms(2) by (rule spaceWidth_append) (rule start_no_trail, rule assms(3))
  moreover from assms(1,2) have "spaceWidth w = 0" by (cases w) auto
  ultimately have "Fields (w @ y) = takeWord (w @ y) # Fields (dropWord (w @ y))"
    using assms(2) by (intro Fields_word) auto
  then show ?thesis using takeWord_append [OF assms(1,3)] by simp
qed

lemma Fields_append_space:
  assumes "0 < spaceWidth s"
  shows "Fields (take (spaceWidth s) s @ z) = Fields z"
proof -
  have w: "spaceWidth (take (spaceWidth s) s @ z) = spaceWidth s"
    using assms by (rule spaceWidth_take)
  have "spaceWidth s \<le> length s" by (rule spaceWidth_le_length)
  then have "drop (spaceWidth s) (take (spaceWidth s) s @ z) = z" by simp
  with w assms show ?thesis
    using Fields_space [of "take (spaceWidth s) s @ z"] by simp
qed

lemma Fields_wordlike: "word \<in> set (Fields s) \<Longrightarrow> wordlike word \<and> word \<noteq> []"
proof (induction s rule: Fields.induct)
  case 1
  then show ?case by simp
next
  case (2 c cs)
  show ?case
  proof (cases "0 < spaceWidth (c # cs)")
    case True
    with 2 show ?thesis by (simp add: Fields.simps(2))
  next
    case False
    with "2.prems" have "word = takeWord (c # cs) \<or> word \<in> set (Fields (dropWord cs))"
      by (simp add: Fields.simps(2))
    then show ?thesis
    proof
      assume "word = takeWord (c # cs)"
      with False show ?thesis using wordlike_takeWord [of "c # cs"] by simp
    next
      assume "word \<in> set (Fields (dropWord cs))"
      with False 2 show ?thesis by simp
    qed
  qed
qed

lemma skipSpace_Nil [simp]: "skipSpace [] = []"
  by (simp add: skipSpace_word)

lemma Fields_Nil_iff: "(Fields s = []) = (skipSpace s = [])"
proof -
  have e: "Fields s = Fields (skipSpace s)"
    by (simp only: Fields_skipSpace)
  show ?thesis
  proof (cases "skipSpace s = []")
    case True
    with e show ?thesis by simp
  next
    case False
    with skipSpace_start [of s] have "spaceWidth (skipSpace s) = 0" by simp
    with False have "Fields (skipSpace s) \<noteq> []" by (simp add: Fields_word)
    with False e show ?thesis by simp
  qed
qed

subsection \<open>White space made uniform\<close>

text \<open>
  The text to which the wrapping is compared: every maximal run of white space replaced by
  one space, then the leading and the trailing white space removed. \<open>joinWords\<close> is
  \<open>strings.Join\<close> with a space as separator.
\<close>

function collapseSpace :: "string \<Rightarrow> string" where
  "collapseSpace [] = []"
| "collapseSpace (c # cs) =
     (if 0 < spaceWidth (c # cs) then CHR '' '' # collapseSpace (skipSpace (c # cs))
      else c # collapseSpace cs)"
  by pat_completeness auto
termination
proof (relation "measure length")
  show "wf (measure length)" by simp
next
  fix c :: char and cs :: string
  assume "0 < spaceWidth (c # cs)"
  then have "length (skipSpace (c # cs)) < length (c # cs)" by (rule length_skipSpace_less)
  then show "(skipSpace (c # cs), c # cs) \<in> measure length" by simp
next
  fix c :: char and cs :: string
  show "(cs, c # cs) \<in> measure length" by simp
qed

declare collapseSpace.simps(2) [simp del]

definition normalizeSpace :: "string \<Rightarrow> string" where
  "normalizeSpace s = TrimSpace (collapseSpace s)"

fun joinWords :: "string list \<Rightarrow> string" where
  "joinWords [] = []"
| "joinWords [word] = word"
| "joinWords (word # next # words) = word @ CHR '' '' # joinWords (next # words)"

lemma joinWords_Cons: "words \<noteq> [] \<Longrightarrow> joinWords (word # words) = word @ CHR '' '' # joinWords words"
  by (cases words) simp_all

lemma collapseSpace_space:
  "0 < spaceWidth s \<Longrightarrow> collapseSpace s = CHR '' '' # collapseSpace (skipSpace s)"
  by (cases s) (simp_all add: collapseSpace.simps(2))

lemma collapseSpace_word: "collapseSpace s = takeWord s @ collapseSpace (dropWord s)"
proof (induction s)
  case Nil
  show ?case by simp
next
  case (Cons c cs)
  show ?case
  proof (cases "0 < spaceWidth (c # cs)")
    case True
    then show ?thesis by simp
  next
    case False
    with Cons show ?thesis by (simp add: collapseSpace.simps(2))
  qed
qed

lemma collapseSpace_start:
  "y = [] \<or> 0 < spaceWidth y \<Longrightarrow> collapseSpace y = [] \<or> 0 < spaceWidth (collapseSpace y)"
  by (cases "y = []") (simp_all add: collapseSpace_space)

lemma collapseSpace_Nil_iff: "(collapseSpace s = []) = (s = [])"
  by (cases s) (simp_all add: collapseSpace.simps(2))

lemma wordlike_start: "wordlike w \<Longrightarrow> spaceWidth w = 0"
  by (cases w) simp_all

lemma spaceWidth_collapseSpace:
  assumes "spaceWidth s = 0"
  shows "spaceWidth (collapseSpace s) = 0"
proof (cases "s = []")
  case True
  then show ?thesis by simp
next
  case False
  with assms have w: "takeWord s \<noteq> []" by (simp add: takeWord_nonempty)
  have "spaceWidth (takeWord s @ collapseSpace (dropWord s)) = spaceWidth (takeWord s)"
    using w by (rule spaceWidth_append)
      (rule start_no_trail, rule collapseSpace_start, rule dropWord_start)
  also have "\<dots> = 0"
    by (rule wordlike_start) (rule wordlike_takeWord)
  finally show ?thesis
    by (simp only: collapseSpace_word [symmetric])
qed

lemma skipSpace_collapseSpace: "skipSpace (collapseSpace s) = collapseSpace (skipSpace s)"
proof (cases "0 < spaceWidth s")
  case True
  have "spaceWidth (skipSpace s) = 0"
    using skipSpace_start [of s] by auto
  then have "skipSpace (collapseSpace (skipSpace s)) = collapseSpace (skipSpace s)"
    by (intro skipSpace_word spaceWidth_collapseSpace)
  moreover have "skipSpace (CHR '' '' # z) = skipSpace z" for z
    by (simp add: skipSpace_space)
  ultimately show ?thesis
    using True by (simp add: collapseSpace_space)
next
  case False
  then have "spaceWidth s = 0" by simp
  then show ?thesis
    by (simp add: skipSpace_word spaceWidth_collapseSpace)
qed

lemma trimRight_word:
  assumes "y = [] \<or> 0 < spaceWidth y"
  shows "wordlike w \<Longrightarrow> trimRight (w @ y) = w @ trimRight y"
proof (induction w)
  case Nil
  show ?case by simp
next
  case (Cons a w)
  have "spaceWidth ((a # w) @ y) = spaceWidth (a # w)"
    by (rule spaceWidth_append) (simp, rule start_no_trail, rule assms)
  with Cons.prems have z: "spaceWidth (a # w @ y) = 0" by simp
  then have "skipSpace (a # w @ y) = a # w @ y" by (rule skipSpace_word)
  with z have "trimRight (a # w @ y) = a # trimRight (w @ y)"
    by (simp add: trimRight.simps(2))
  with Cons show ?case by simp
qed

lemma trimRight_space:
  "trimRight (CHR '' '' # z) = (if skipSpace z = [] then [] else CHR '' '' # trimRight z)"
proof -
  have "skipSpace (CHR '' '' # z) = skipSpace z"
    by (simp add: skipSpace_space)
  then show ?thesis
    by (simp add: trimRight.simps(2))
qed

lemma trimRight_collapseSpace:
  "trimRight (collapseSpace s)
   = (if 0 < spaceWidth s \<and> Fields s \<noteq> [] then CHR '' '' # joinWords (Fields s)
      else joinWords (Fields s))"
proof (induction s rule: length_induct)
  case (1 s)
  show ?case
  proof (cases "0 < spaceWidth s")
    case True
    let ?r = "skipSpace s"
    have r: "spaceWidth ?r = 0"
      using skipSpace_start [of s] by auto
    have less: "length ?r < length s"
      using True by (rule length_skipSpace_less)
    have c: "collapseSpace s = CHR '' '' # collapseSpace ?r"
      using True by (rule collapseSpace_space)
    have k: "skipSpace (collapseSpace ?r) = collapseSpace ?r"
      using r by (intro skipSpace_word spaceWidth_collapseSpace)
    show ?thesis
    proof (cases "?r = []")
      case e: True
      then have "Fields s = []" by (simp add: Fields_Nil_iff)
      with e show ?thesis by (simp add: c trimRight_space)
    next
      case n: False
      then have f: "Fields s \<noteq> []" by (simp add: Fields_Nil_iff)
      from n have "collapseSpace ?r \<noteq> []" by (simp add: collapseSpace_Nil_iff)
      then have "trimRight (collapseSpace s) = CHR '' '' # trimRight (collapseSpace ?r)"
        by (simp add: c trimRight_space k)
      also from 1 less have "trimRight (collapseSpace ?r) = joinWords (Fields ?r)"
        using r by simp
      finally show ?thesis
        using True f by (simp add: Fields_skipSpace)
    qed
  next
    case False
    then have z: "spaceWidth s = 0" by simp
    show ?thesis
    proof (cases "s = []")
      case True
      then show ?thesis by simp
    next
      case n: False
      let ?w = "takeWord s" and ?y = "dropWord s"
      have w: "?w \<noteq> []" using n z by (rule takeWord_nonempty)
      have "length (?w @ ?y) = length s" by (simp only: takeWord_dropWord)
      with w have less: "length ?y < length s" by (cases ?w) auto
      have f: "Fields s = ?w # Fields ?y" using n z by (rule Fields_word)
      have "trimRight (collapseSpace s) = trimRight (?w @ collapseSpace ?y)"
        by (simp only: collapseSpace_word [symmetric])
      also have "\<dots> = ?w @ trimRight (collapseSpace ?y)"
        by (rule trimRight_word) (rule collapseSpace_start, rule dropWord_start, rule wordlike_takeWord)
      also from 1 less have "trimRight (collapseSpace ?y)
        = (if 0 < spaceWidth ?y \<and> Fields ?y \<noteq> [] then CHR '' '' # joinWords (Fields ?y)
           else joinWords (Fields ?y))"
        by simp
      finally have t: "trimRight (collapseSpace s)
        = ?w @ (if 0 < spaceWidth ?y \<and> Fields ?y \<noteq> [] then CHR '' '' # joinWords (Fields ?y)
                else joinWords (Fields ?y))" .
      show ?thesis
      proof (cases "Fields ?y = []")
        case True
        with t z f show ?thesis by simp
      next
        case ne: False
        then have "?y \<noteq> []" by auto
        with dropWord_start [of s] have "0 < spaceWidth ?y" by simp
        with t z f ne show ?thesis by (simp add: joinWords_Cons)
      qed
    qed
  qed
qed

lemma normalizeSpace_joinWords: "normalizeSpace s = joinWords (Fields s)"
proof -
  have r: "spaceWidth (skipSpace s) = 0"
    using skipSpace_start [of s] by auto
  have "normalizeSpace s = trimRight (collapseSpace (skipSpace s))"
    by (simp add: normalizeSpace_def TrimSpace_def skipSpace_collapseSpace)
  also have "\<dots> = joinWords (Fields (skipSpace s))"
    using r by (simp add: trimRight_collapseSpace)
  finally show ?thesis
    by (simp only: Fields_skipSpace)
qed

lemma Fields_joinWords:
  "\<forall>word \<in> set words. wordlike word \<and> word \<noteq> [] \<Longrightarrow> Fields (joinWords words) = words"
proof (induction words rule: joinWords.induct)
  case 1
  show ?case by simp
next
  case (2 word)
  then have "Fields (word @ []) = word # Fields []"
    by (intro Fields_append_word) simp_all
  then show ?case by simp
next
  case (3 word "next" words)
  let ?y = "CHR '' '' # joinWords (next # words)"
  from "3.prems" have "Fields (word @ ?y) = word # Fields ?y"
    by (intro Fields_append_word) simp_all
  moreover have "Fields ?y = Fields (joinWords (next # words))"
    by (simp add: Fields_space)
  moreover from 3 have "Fields (joinWords (next # words)) = next # words"
    by simp
  ultimately show ?case by simp
qed

lemma Fields_normalizeSpace: "Fields (normalizeSpace s) = Fields s"
  unfolding normalizeSpace_joinWords
  by (rule Fields_joinWords) (simp add: Fields_wordlike)

text \<open>
  Claim C10. For every paragraph line \<open>s\<close> and width \<open>w\<close>, the wrapped paragraph is the
  wrapped paragraph of \<open>s\<close> with every maximal run of white space replaced by one space and
  the leading and trailing white space removed, which is the text of the words of \<open>s\<close>
  joined by single spaces; a line of white space only is wrapped to the empty string. So
  the spacing inside a paragraph is not kept.
\<close>

theorem wrapParagraph_normalizes_space:
  "wrapParagraph s w = wrapParagraph (normalizeSpace s) w
   \<and> normalizeSpace s = joinWords (Fields s)
   \<and> (skipSpace s = [] \<longrightarrow> wrapParagraph s w = [])"
proof (intro conjI impI)
  show "wrapParagraph s w = wrapParagraph (normalizeSpace s) w"
    by (simp only: wrapParagraph_def Fields_normalizeSpace)
  show "normalizeSpace s = joinWords (Fields s)"
    by (rule normalizeSpace_joinWords)
next
  assume "skipSpace s = []"
  then have "Fields s = []" by (simp only: Fields_Nil_iff)
  then show "wrapParagraph s w = []" by (simp add: wrapParagraph_def)
qed

text \<open>A line with a space and a tab between its two words and a space behind them.\<close>

definition example_paragraph :: string where
  "example_paragraph = ''fix'' @ [CHR 0x20, CHR 0x09] @ ''crash ''"

lemma example_Fields: "Fields example_paragraph = [''fix'', ''crash'']"
  by (simp add: example_paragraph_def Fields.simps(2) spaceWidth_def asciiSpace_def space2_def
      space3_def)

lemma example_skipSpace:
  "skipSpace [CHR 0x20, CHR 0x09, CHR 0xC2, CHR 0xA0] = []"
  by (simp add: skipSpace.simps spaceWidth_def asciiSpace_def space2_def space3_def)

lemma example_wrapParagraph: "wrapParagraph ''fix crash'' 72 = ''fix crash''"
proof -
  have "Fields ''fix crash'' = [''fix'', ''crash'']"
    by (simp add: Fields.simps(2) spaceWidth_def asciiSpace_def space2_def space3_def)
  then show ?thesis
    by (simp add: wrapParagraph_def wrapParagraph_pref1_def)
qed

theorem wrapParagraph_normalizes_space_witness:
  "skipSpace [CHR 0x20, CHR 0x09, CHR 0xC2, CHR 0xA0] = []
   \<and> wrapParagraph [CHR 0x20, CHR 0x09, CHR 0xC2, CHR 0xA0] 72 = []
   \<and> normalizeSpace example_paragraph = ''fix crash''
   \<and> wrapParagraph example_paragraph 72 = ''fix crash''"
proof -
  note blank = wrapParagraph_normalizes_space [of "[CHR 0x20, CHR 0x09, CHR 0xC2, CHR 0xA0]" 72]
  note spaced = wrapParagraph_normalizes_space [of example_paragraph 72]
  have a: "skipSpace [CHR 0x20, CHR 0x09, CHR 0xC2, CHR 0xA0] = []"
    by (rule example_skipSpace)
  from blank [THEN conjunct2, THEN conjunct2, rule_format, OF a]
  have b: "wrapParagraph [CHR 0x20, CHR 0x09, CHR 0xC2, CHR 0xA0] 72 = []" .
  from spaced [THEN conjunct2, THEN conjunct1]
  have c: "normalizeSpace example_paragraph = ''fix crash''"
    by (simp only: example_Fields joinWords.simps append.simps)
  from spaced [THEN conjunct1]
  have d: "wrapParagraph example_paragraph 72 = ''fix crash''"
    by (simp only: c example_wrapParagraph)
  from a b c d show ?thesis by (intro conjI)
qed

subsection \<open>The lines of a wrapped paragraph\<close>



























end
